theory Spec2Isabelle
  imports Complex_Main "HOL-Library.Sublist"
begin

section \<open>The head-probing dispatcher of \<^verbatim>\<open>head_probe.py\<close>\<close>

text \<open>
  The script launches external training runs as operating-system subprocesses. The model
  below keeps the two functions \<^verbatim>\<open>probe_heads\<close> and \<^verbatim>\<open>probe_model\<close> as they are written:
  every query of the file system and every exit status of a subprocess is read from an
  explicit \<open>world\<close>, every effect (a line printed, a directory created, a process started,
  a list of processes waited for) is appended to a trace, and every exception that the code
  of the script raises (a remainder by zero, an index out of range, the \<^verbatim>\<open>ValueError\<close> of the
  dispatcher) is a value of type \<open>error\<close>.

  What lies outside the script is taken to behave: the file system is read as it is when
  the function is called, \<^verbatim>\<open>mkdir\<close> and \<^verbatim>\<open>Popen\<close> succeed, every subprocess terminates, the task
  definition of a task can be loaded, and the error output of a subprocess is valid text.
\<close>

subsection \<open>Enumerations and exceptions\<close>

text \<open>
  Modelled from the spec: the enum \<^verbatim>\<open>LingualSetting\<close> of \<^verbatim>\<open>experiments/exp_def.py\<close>, which
  is imported by the script. Its members are the three regimes named by the docstring of
  \<^verbatim>\<open>probe_heads\<close> ("cross, multi, or base") and by the glossary.
\<close>

datatype LingualSetting = CROSS | MULTI | BASE

fun LingualSetting_name :: "LingualSetting \<Rightarrow> string" where
  "LingualSetting_name CROSS = ''CROSS''"
| "LingualSetting_name MULTI = ''MULTI''"
| "LingualSetting_name BASE = ''BASE''"

text \<open>
  Modelled from the spec: the enum \<^verbatim>\<open>Experiment\<close> of \<^verbatim>\<open>experiments/exp_def.py\<close>. The script
  only ever reads the \<^verbatim>\<open>name\<close> of a member, so a member is its name.
\<close>

datatype Experiment = Experiment string

fun Experiment_name :: "Experiment \<Rightarrow> string" where
  "Experiment_name (Experiment n) = n"

datatype error = ZeroDivisionError | IndexError | ValueError

subsection \<open>Strings\<close>

definition lower_char :: "char \<Rightarrow> char" where
  "lower_char c =
     (case map_of (zip ''ABCDEFGHIJKLMNOPQRSTUVWXYZ'' ''abcdefghijklmnopqrstuvwxyz'') c of
        Some d \<Rightarrow> d
      | None \<Rightarrow> c)"

definition lower :: "string \<Rightarrow> string" where
  "lower s = map lower_char s"

definition digit :: "nat \<Rightarrow> char" where
  "digit d = ''0123456789'' ! d"

fun str_nat :: "nat \<Rightarrow> string" where
  "str_nat n = (if n < 10 then [digit n] else str_nat (n div 10) @ [digit (n mod 10)])"

declare str_nat.simps [simp del]

definition str_int :: "int \<Rightarrow> string" where
  "str_int i = (if i < 0 then CHR ''-'' # str_nat (nat (- i)) else str_nat (nat i))"

text \<open>The text of a pair of integers, as an f-string prints the tuple \<^verbatim>\<open>(hl, hi)\<close>.\<close>

definition str_tuple :: "nat \<times> nat \<Rightarrow> string" where
  "str_tuple hp = ''('' @ str_nat (fst hp) @ '', '' @ str_nat (snd hp) @ '')''"

text \<open>\<^verbatim>\<open>s.split(sep)\<close> for a separator of one character.\<close>

fun split_str :: "string \<Rightarrow> char \<Rightarrow> string list" where
  "split_str [] sep = [[]]"
| "split_str (c # cs) sep =
     (if c = sep then [] # split_str cs sep
      else (case split_str cs sep of
              [] \<Rightarrow> [[c]]
            | x # xs \<Rightarrow> (c # x) # xs))"

text \<open>\<^verbatim>\<open>sep.join(xs)\<close>.\<close>

fun join :: "string \<Rightarrow> string list \<Rightarrow> string" where
  "join sep [] = []"
| "join sep [x] = x"
| "join sep (x # y # ys) = x @ sep @ join sep (y # ys)"

subsection \<open>Paths and the file system\<close>

text \<open>
  A relative path is the list of its components. \<open>Path\<close> parses a string as \<^verbatim>\<open>pathlib\<close>
  does for the relative paths of the script: it cuts at every slash and drops empty
  components and single dots.
\<close>

type_synonym path = "string list"

definition Path :: "string \<Rightarrow> path" where
  "Path s = filter (\<lambda>c. c \<noteq> [] \<and> c \<noteq> ''.'') (split_str s CHR ''/'')"

definition joinpath :: "path \<Rightarrow> string list \<Rightarrow> path" where
  "joinpath p segs = p @ concat (map Path segs)"

definition str_path :: "path \<Rightarrow> string" where
  "str_path p = join ''/'' p"

text \<open>
  Shell-style matching of a file name against a pattern in which \<^verbatim>\<open>*\<close> stands for any run
  of characters; the two patterns of the script use no other wildcard.
\<close>

fun fnmatch :: "string \<Rightarrow> string \<Rightarrow> bool" where
  "fnmatch [] [] = True"
| "fnmatch (c # cs) [] = False"
| "fnmatch [] (p # ps) = (p = CHR ''*'' \<and> fnmatch [] ps)"
| "fnmatch (c # cs) (p # ps) =
     (if p = CHR ''*'' then fnmatch (c # cs) ps \<or> fnmatch cs (p # ps)
      else c = p \<and> fnmatch cs ps)"

text \<open>
  The world outside the script:
  \<^item> \<open>entries\<close>: every path that exists, with a flag that is true for a directory, in the
    order in which a recursive scan yields them;
  \<^item> \<open>n_class\<close>: the number of classes that the task definition file gives for a task (the
    class \<^verbatim>\<open>TaskDefs\<close> is not among the sources; the lookup is taken as a parameter);
  \<^item> \<open>exit_code\<close> and \<open>stderr_text\<close>: the exit status and the text written to standard error
    by the subprocess with a given process number. Every subprocess is taken to terminate.
\<close>

record world =
  entries :: "(path \<times> bool) list"
  n_class :: "string \<Rightarrow> int"
  exit_code :: "nat \<Rightarrow> int"
  stderr_text :: "nat \<Rightarrow> string"

text \<open>\<^verbatim>\<open>d.rglob(pattern)\<close>: the entries at any depth below \<open>d\<close> whose name matches.\<close>

definition rglob :: "world \<Rightarrow> path \<Rightarrow> string \<Rightarrow> path list" where
  "rglob w d pattern =
     [p. (p, isdir) \<leftarrow> entries w, strict_prefix d p \<and> fnmatch (last p) pattern]"

definition is_dir :: "world \<Rightarrow> path \<Rightarrow> bool" where
  "is_dir w p = ((p, True) \<in> set (entries w))"

subsection \<open>Subprocesses and the trace of effects\<close>

text \<open>
  A process handle as \<^verbatim>\<open>subprocess.Popen\<close> returns it: the shell command, the number of the
  process, and how its standard streams were set up.
\<close>

record popen =
  args :: string
  pid :: nat
  stdout_devnull :: bool
  stderr_pipe :: bool

text \<open>
  \<^verbatim>\<open>process.communicate()\<close> waits for the process and returns the captured streams:
  standard output is never captured here, standard error only when it was piped.
\<close>

definition communicate :: "world \<Rightarrow> popen \<Rightarrow> string option \<times> string option" where
  "communicate w p = (None, if stderr_pipe p then Some (stderr_text w (pid p)) else None)"

definition returncode :: "world \<Rightarrow> popen \<Rightarrow> int" where
  "returncode w p = exit_code w (pid p)"

text \<open>
  \<open>Communicate_all ps\<close> is one evaluation of the list comprehension
  \<^verbatim>\<open>[p[-1].communicate() for p in processes]\<close>: it waits for each listed process in turn.
\<close>

datatype event =
    Print string
  | Mkdir path
  | Popen popen
  | Communicate_all "popen list"

type_synonym 'a run = "event list \<times> (error + 'a)"

definition prepend :: "event list \<Rightarrow> 'a run \<Rightarrow> 'a run" where
  "prepend evs r = (evs @ fst r, snd r)"

subsection \<open>Indexing\<close>

text \<open>\<^verbatim>\<open>xs[i]\<close> for an index that is not negative: out of range it raises.\<close>

definition item :: "'a list \<Rightarrow> nat \<Rightarrow> error + 'a" where
  "item xs i = (if i < length xs then Inr (xs ! i) else Inl IndexError)"

subsection \<open>\<^verbatim>\<open>probe_heads\<close>\<close>

definition dir_for_head :: "path \<Rightarrow> LingualSetting \<Rightarrow> nat \<Rightarrow> nat \<Rightarrow> path" where
  "dir_for_head checkpoint_dir setting hl hi =
     joinpath checkpoint_dir [lower (LingualSetting_name setting), str_nat hl, str_nat hi]"

text \<open>Lines 38 to 42: the heads that have not been probed yet, in the order of the grid.\<close>

definition heads_to_probe :: "world \<Rightarrow> path \<Rightarrow> LingualSetting \<Rightarrow> (nat \<times> nat) list" where
  "heads_to_probe w checkpoint_dir setting =
     filter
       (\<lambda>(hl, hi). length (rglob w (dir_for_head checkpoint_dir setting hl hi) ''model_1_*.pt'') = 0)
       (List.product [0..<12] [0..<12])"

text \<open>
  Lines 48 to 50: the loop that appends \<^verbatim>\<open>devices[i % len(devices)]\<close> for every pending
  head; the remainder by zero raises.
\<close>

fun assign_devices :: "int list \<Rightarrow> nat \<Rightarrow> (nat \<times> nat) list \<Rightarrow> int list \<Rightarrow> error + int list" where
  "assign_devices devices i [] device_ids = Inr device_ids"
| "assign_devices devices i (hp # rest) device_ids =
     (if length devices = 0 then Inl ZeroDivisionError
      else (case item devices (i mod length devices) of
              Inl e \<Rightarrow> Inl e
            | Inr d \<Rightarrow> assign_devices devices (Suc i) rest (device_ids @ [d])))"

text \<open>Lines 53 and 54: one line per pending head.\<close>

fun print_heads :: "LingualSetting \<Rightarrow> int list \<Rightarrow> nat \<Rightarrow> (nat \<times> nat) list \<Rightarrow> unit run" where
  "print_heads setting device_ids i [] = ([], Inr ())"
| "print_heads setting device_ids i (hp # rest) =
     (case item device_ids i of
        Inl e \<Rightarrow> ([], Inl e)
      | Inr d \<Rightarrow>
          prepend
            [Print (lower (LingualSetting_name setting) @ '' '' @ str_tuple hp @ '' '' @
                    ''GPU: '' @ str_int d)]
            (print_heads setting device_ids (Suc i) rest))"

text \<open>Lines 68 and 69: the finetuned checkpoint is the first match of the scan.\<close>

definition finetuned_checkpoint :: "world \<Rightarrow> Experiment \<Rightarrow> LingualSetting \<Rightarrow> error + path" where
  "finetuned_checkpoint w finetuned_task setting =
     (let finetuned_checkpoint_dir =
            Path (''checkpoint/'' @ Experiment_name finetuned_task @ ''_'' @
                  lower (LingualSetting_name setting))
      in item (rglob w finetuned_checkpoint_dir ''model_5*.pt'') 0)"

text \<open>Lines 64 to 74: the command line of one head probe.\<close>

definition head_template ::
  "world \<Rightarrow> LingualSetting \<Rightarrow> Experiment \<Rightarrow> Experiment \<Rightarrow> int \<Rightarrow> path \<Rightarrow> int \<Rightarrow> nat \<Rightarrow> nat \<Rightarrow>
   error + string" where
  "head_template w setting finetuned_task task n_classes checkpoint_dir_for_head did hl hi =
     (let template = ''python train.py --local_rank -1 '';
          template = template @ ''--dataset_name '' @ Experiment_name task @ ''/cross ''
      in case (if setting \<noteq> BASE then
                 (case finetuned_checkpoint w finetuned_task setting of
                    Inl e \<Rightarrow> Inl e
                  | Inr c \<Rightarrow> Inr (template @ ''--resume --model_ckpt '' @ str_path c @ '' ''))
               else Inr template) of
           Inl e \<Rightarrow> Inl e
         | Inr template \<Rightarrow>
             (let template = template @ ''--epochs 2 --output_dir '' @
                             str_path checkpoint_dir_for_head @ '' '';
                  template = template @ ''--init_checkpoint bert-base-multilingual-cased '' @
                             ''--devices '' @ str_int did @ '' '';
                  template = template @ ''--head_probe --head_probe_layer '' @ str_nat hl @
                             '' --head_probe_idx '' @ str_nat hi @
                             '' --head_probe_n_classes '' @ str_int n_classes
              in Inr template))"

text \<open>An entry of the list \<^verbatim>\<open>processes\<close>: the tuple \<^verbatim>\<open>(hl, hi, did, process)\<close>.\<close>

type_synonym proc = "nat \<times> nat \<times> int \<times> popen"

definition handle :: "proc \<Rightarrow> popen" where
  "handle p = snd (snd (snd p))"

text \<open>
  Lines 83 to 93: the results of a full batch are inspected in order. The first process
  that wrote to a captured standard error and exited with status 1 has its error text
  printed line by line, and \<^verbatim>\<open>ValueError\<close> is raised; every process before it is reported
  as completed.
\<close>

fun check_results ::
  "world \<Rightarrow> LingualSetting \<Rightarrow> proc list \<Rightarrow> nat \<Rightarrow> (string option \<times> string option) list \<Rightarrow>
   unit run" where
  "check_results w setting processes ri [] = ([], Inr ())"
| "check_results w setting processes ri (r # rest) =
     (case item processes ri of
        Inl e \<Rightarrow> ([], Inl e)
      | Inr (hl, hi, did, process) \<Rightarrow>
          (let prefix_str = ''['' @ LingualSetting_name setting @ ''] [GPU '' @ str_int did @
                            ''] '' @ str_tuple (hl, hi) @ '':''
           in case snd r of
                Some err \<Rightarrow>
                  (if returncode w process = 1 then
                     (Print prefix_str #
                        map (\<lambda>e. Print (CHR 0x09 # e)) (split_str err CHR 0x0A),
                      Inl ValueError)
                   else prepend [Print (prefix_str @ '' completed'')]
                          (check_results w setting processes (Suc ri) rest))
              | None \<Rightarrow>
                  prepend [Print (prefix_str @ '' completed'')]
                    (check_results w setting processes (Suc ri) rest)))"

text \<open>The line that reports a process as completed.\<close>

definition completed_line :: "LingualSetting \<Rightarrow> proc \<Rightarrow> string" where
  "completed_line s p =
     (case p of (hl, hi, did, process) \<Rightarrow>
        ''['' @ LingualSetting_name s @ ''] [GPU '' @ str_int did @ ''] '' @ str_tuple (hl, hi) @
        '':'' @ '' completed'')"

text \<open>Lines 82 to 94: wait for the whole batch, then inspect the results.\<close>

definition wait_batch :: "world \<Rightarrow> LingualSetting \<Rightarrow> proc list \<Rightarrow> unit run" where
  "wait_batch w setting processes =
     (let results = map (\<lambda>p. communicate w (handle p)) processes
      in prepend [Communicate_all (map handle processes)]
           (check_results w setting processes 0 results))"

text \<open>
  Lines 59 to 94: the loop over the pending heads. \<open>i\<close> is the index of the next head,
  \<open>processes\<close> the batch that is being filled. The process started for the head of index
  \<open>i\<close> gets the process number \<open>i\<close>. The result is the batch that is left when the loop ends.
\<close>

fun launch_all ::
  "world \<Rightarrow> LingualSetting \<Rightarrow> Experiment \<Rightarrow> Experiment \<Rightarrow> int \<Rightarrow> int list \<Rightarrow> int \<Rightarrow> path \<Rightarrow>
   int list \<Rightarrow> nat \<Rightarrow> (nat \<times> nat) list \<Rightarrow> proc list \<Rightarrow> proc list run" where
  "launch_all w setting finetuned_task task models_per_gpu devices n_classes checkpoint_dir
     device_ids i [] processes = ([], Inr processes)"
| "launch_all w setting finetuned_task task models_per_gpu devices n_classes checkpoint_dir
     device_ids i ((hl, hi) # rest) processes =
     (case item device_ids i of
        Inl e \<Rightarrow> ([], Inl e)
      | Inr did \<Rightarrow>
          (let checkpoint_dir_for_head = dir_for_head checkpoint_dir setting hl hi
           in case head_template w setting finetuned_task task n_classes
                     checkpoint_dir_for_head did hl hi of
                Inl e \<Rightarrow> ([Mkdir checkpoint_dir_for_head], Inl e)
              | Inr template \<Rightarrow>
                  (let process = \<lparr>args = template, pid = i, stdout_devnull = True,
                                  stderr_pipe = True\<rparr>;
                       processes = processes @ [(hl, hi, did, process)]
                   in prepend
                        [Mkdir checkpoint_dir_for_head,
                         Print (''['' @ LingualSetting_name setting @ ''] [GPU '' @ str_int did @
                                ''] '' @ Experiment_name finetuned_task @ ''->'' @
                                Experiment_name task @ '' '' @ str_tuple (hl, hi)),
                         Popen process]
                        (if int (length processes) = int (length devices) * models_per_gpu then
                           (case wait_batch w setting processes of
                              (evs, Inl e) \<Rightarrow> (evs, Inl e)
                            | (evs, Inr u) \<Rightarrow>
                                prepend evs
                                  (launch_all w setting finetuned_task task models_per_gpu
                                     devices n_classes checkpoint_dir device_ids (Suc i) rest []))
                         else launch_all w setting finetuned_task task models_per_gpu devices
                                n_classes checkpoint_dir device_ids (Suc i) rest processes))))"

text \<open>Line 35: where the probed checkpoints of all heads go.\<close>

definition head_checkpoint_dir :: "Experiment \<Rightarrow> Experiment \<Rightarrow> path" where
  "head_checkpoint_dir finetuned_task task =
     joinpath (Path (''checkpoint/head_probing/'' @ Experiment_name finetuned_task))
       [Experiment_name task]"

text \<open>
  The whole function. The result of the last line, the statuses of the batch that is left,
  is assigned and never read.
\<close>

definition probe_heads ::
  "world \<Rightarrow> LingualSetting \<Rightarrow> Experiment \<Rightarrow> Experiment \<Rightarrow> int \<Rightarrow> int list \<Rightarrow> unit run" where
  "probe_heads w setting finetuned_task task models_per_gpu devices =
     (let n_classes = n_class w (lower (Experiment_name task));
          checkpoint_dir = head_checkpoint_dir finetuned_task task;
          heads = heads_to_probe w checkpoint_dir setting
      in if length heads = 0 then ([], Inr ())
         else (case assign_devices devices 0 heads [] of
                 Inl e \<Rightarrow> ([], Inl e)
               | Inr device_ids \<Rightarrow>
                   (case prepend [Print ''heads to probe:'']
                           (print_heads setting device_ids 0 heads) of
                      (evs, Inl e) \<Rightarrow> (evs, Inl e)
                    | (evs, Inr u) \<Rightarrow>
                        prepend (evs @ [Print [CHR 0x0A]])
                          (case launch_all w setting finetuned_task task models_per_gpu devices
                                  n_classes checkpoint_dir device_ids 0 heads [] of
                             (evs', Inl e) \<Rightarrow> (evs', Inl e)
                           | (evs', Inr processes) \<Rightarrow>
                               (evs' @ [Communicate_all (map handle processes)], Inr ())))))"

subsection \<open>\<^verbatim>\<open>probe_model\<close>\<close>

text \<open>
  The function reads the variable \<^verbatim>\<open>setting\<close>, which is not one of its parameters: it is the
  loop variable of the main program, bound at module level before every call. The model
  takes its value as the argument \<open>setting\<close>, next to the parameters of the function.
\<close>

definition task_info_str ::
  "LingualSetting \<Rightarrow> Experiment \<Rightarrow> LingualSetting \<Rightarrow> Experiment \<Rightarrow> string" where
  "task_info_str setting finetuned_task downstream_setting downstream_task =
     Experiment_name finetuned_task @ ''_'' @ lower (LingualSetting_name setting) @ '' -> '' @
     Experiment_name downstream_task @ '', '' @ lower (LingualSetting_name downstream_setting)"

text \<open>Lines 115 to 125.\<close>

definition model_checkpoint_dir ::
  "LingualSetting \<Rightarrow> Experiment \<Rightarrow> LingualSetting \<Rightarrow> Experiment \<Rightarrow> path" where
  "model_checkpoint_dir finetuned_setting finetuned_task downstream_setting downstream_task =
     (if finetuned_setting = BASE then
        joinpath (Path ''checkpoint/full_model_probe'')
          [lower (LingualSetting_name downstream_setting) @ ''_head_training'',
           ''mBERT'',
           Experiment_name downstream_task]
      else
        joinpath (Path ''checkpoint/full_model_probe'')
          [lower (LingualSetting_name downstream_setting) @ ''_head_training'',
           Experiment_name finetuned_task,
           lower (LingualSetting_name finetuned_setting),
           Experiment_name downstream_task])"

text \<open>Lines 131 to 141: the command line of the full-model probe.\<close>

definition model_template ::
  "world \<Rightarrow> LingualSetting \<Rightarrow> LingualSetting \<Rightarrow> Experiment \<Rightarrow> LingualSetting \<Rightarrow> Experiment \<Rightarrow>
   string \<Rightarrow> int \<Rightarrow> path \<Rightarrow> error + string" where
  "model_template w setting finetuned_setting finetuned_task downstream_setting downstream_task
     devices n_classes checkpoint_dir =
     (let template = ''python train.py --local_rank -1 '';
          template = template @ ''--dataset_name '' @ Experiment_name downstream_task @ ''/'' @
                     lower (LingualSetting_name downstream_setting) @ '' ''
      in case (if setting \<noteq> BASE then
                 (case finetuned_checkpoint w finetuned_task finetuned_setting of
                    Inl e \<Rightarrow> Inl e
                  | Inr c \<Rightarrow> Inr (template @ ''--resume --model_ckpt '' @ str_path c @ '' ''))
               else Inr template) of
           Inl e \<Rightarrow> Inl e
         | Inr template \<Rightarrow>
             (let template = template @ ''--epochs 2 --output_dir '' @ str_path checkpoint_dir @
                             '' '';
                  template = template @ ''--init_checkpoint bert-base-multilingual-cased '' @
                             ''--devices '' @ devices @ '' '';
                  template = template @ ''--model_probe --model_probe_n_classes '' @
                             str_int n_classes
              in Inr template))"

definition probe_model ::
  "world \<Rightarrow> LingualSetting \<Rightarrow> LingualSetting \<Rightarrow> Experiment \<Rightarrow> LingualSetting \<Rightarrow> Experiment \<Rightarrow>
   int list \<Rightarrow> unit run" where
  "probe_model w setting finetuned_setting finetuned_task downstream_setting downstream_task
     devices =
     (let info = task_info_str setting finetuned_task downstream_setting downstream_task;
          devices = join '' '' (map str_int devices);
          n_classes = n_class w (lower (Experiment_name downstream_task));
          checkpoint_dir =
            model_checkpoint_dir finetuned_setting finetuned_task downstream_setting
              downstream_task
      in if is_dir w checkpoint_dir then
           ([Print (str_path checkpoint_dir @ '' exists, skipping '' @ info)], Inr ())
         else (case model_template w setting finetuned_setting finetuned_task
                      downstream_setting downstream_task devices n_classes checkpoint_dir of
                 Inl e \<Rightarrow> ([], Inl e)
               | Inr template \<Rightarrow>
                   (let process = \<lparr>args = template, pid = 0, stdout_devnull = False,
                                   stderr_pipe = False\<rparr>
                    in ([Print info, Popen process, Communicate_all [process]], Inr ()))))"

subsection \<open>Reading a trace\<close>

text \<open>
  The processes that have been started and not yet waited for, after the events of a trace,
  starting from the processes \<open>rs\<close>.
\<close>

fun outstanding :: "popen list \<Rightarrow> event list \<Rightarrow> popen list" where
  "outstanding rs [] = rs"
| "outstanding rs (Popen p # es) = outstanding (rs @ [p]) es"
| "outstanding rs (Communicate_all ps # es) = outstanding (filter (\<lambda>r. r \<notin> set ps) rs) es"
| "outstanding rs (Print s # es) = outstanding rs es"
| "outstanding rs (Mkdir d # es) = outstanding rs es"

text \<open>
  No more than \<open>B\<close> processes are outstanding before, between and after the events of a
  trace; and every wait of a trace leaves no process outstanding.
\<close>

fun capped :: "nat \<Rightarrow> popen list \<Rightarrow> event list \<Rightarrow> bool" where
  "capped B rs [] = (length rs \<le> B)"
| "capped B rs (e # es) = (length rs \<le> B \<and> capped B (outstanding rs [e]) es)"

fun drained :: "popen list \<Rightarrow> event list \<Rightarrow> bool" where
  "drained rs [] = True"
| "drained rs (Communicate_all ps # es) =
     (filter (\<lambda>r. r \<notin> set ps) rs = [] \<and> drained [] es)"
| "drained rs (Popen p # es) = drained (rs @ [p]) es"
| "drained rs (Print s # es) = drained rs es"
| "drained rs (Mkdir d # es) = drained rs es"

text \<open>
  The batch that is being filled when the head of index \<open>i\<close> is next, for batches of \<open>B\<close>
  processes: it holds the processes of the \<open>i mod B\<close> heads before \<open>i\<close>.
\<close>

definition filling :: "nat \<Rightarrow> nat \<Rightarrow> proc list \<Rightarrow> bool" where
  "filling B i P \<longleftrightarrow> map (\<lambda>p. pid (handle p)) P = [i - i mod B ..< i]"

text \<open>The processes started by a trace, in order, and their command lines.\<close>

fun launched :: "event list \<Rightarrow> popen list" where
  "launched [] = []"
| "launched (Popen p # es) = p # launched es"
| "launched (Communicate_all ps # es) = launched es"
| "launched (Print s # es) = launched es"
| "launched (Mkdir d # es) = launched es"

definition commands :: "event list \<Rightarrow> string list" where
  "commands es = map args (launched es)"

text \<open>The batches waited for by a trace: the waits on at least one process.\<close>

fun batch_joins :: "event list \<Rightarrow> popen list list" where
  "batch_joins [] = []"
| "batch_joins (Communicate_all ps # es) = (if ps = [] then batch_joins es else ps # batch_joins es)"
| "batch_joins (Popen p # es) = batch_joins es"
| "batch_joins (Print s # es) = batch_joins es"
| "batch_joins (Mkdir d # es) = batch_joins es"

text \<open>The lines printed by a trace.\<close>

fun printed :: "event list \<Rightarrow> string list" where
  "printed [] = []"
| "printed (Print s # es) = s # printed es"
| "printed (Popen p # es) = printed es"
| "printed (Communicate_all ps # es) = printed es"
| "printed (Mkdir d # es) = printed es"

text \<open>
  The line that announces the pending head of index \<open>i\<close> with its device, and the command
  line of the job of that head, as \<^verbatim>\<open>probe_heads\<close> builds them.
\<close>

definition schedule_line :: "LingualSetting \<Rightarrow> int list \<Rightarrow> nat \<times> (nat \<times> nat) \<Rightarrow> string" where
  "schedule_line s devices job =
     (case job of (i, hp) \<Rightarrow>
        lower (LingualSetting_name s) @ '' '' @ str_tuple hp @ '' '' @ ''GPU: '' @
        str_int (devices ! (i mod length devices)))"

definition head_job ::
  "world \<Rightarrow> LingualSetting \<Rightarrow> Experiment \<Rightarrow> Experiment \<Rightarrow> int list \<Rightarrow> nat \<times> (nat \<times> nat) \<Rightarrow>
   error + string" where
  "head_job w s ft t devices job =
     (case job of (i, (hl, hi)) \<Rightarrow>
        head_template w s ft t (n_class w (lower (Experiment_name t)))
          (dir_for_head (head_checkpoint_dir ft t) s hl hi)
          (devices ! (i mod length devices)) hl hi)"

text \<open>
  Every wait of a trace but a wait that ends it is followed at once by the line \<open>f p\<close> of
  every process \<open>p\<close> waited for, in order.
\<close>

fun acknowledged :: "(popen \<Rightarrow> string) \<Rightarrow> event list \<Rightarrow> bool" where
  "acknowledged f [] = True"
| "acknowledged f (Communicate_all ps # es) =
     ((es = [] \<or> prefix (map (\<lambda>p. Print (f p)) ps) es) \<and> acknowledged f es)"
| "acknowledged f (Popen p # es) = acknowledged f es"
| "acknowledged f (Print s # es) = acknowledged f es"
| "acknowledged f (Mkdir d # es) = acknowledged f es"

subsection \<open>Example worlds\<close>


text \<open>An empty checkpoint tree; every subprocess exits with the status \<open>c\<close>.\<close>

definition fresh_world :: "int \<Rightarrow> world" where
  "fresh_world c =
     \<lparr>entries = [], n_class = (\<lambda>t. 17), exit_code = (\<lambda>p. c), stderr_text = (\<lambda>p. ''boom'')\<rparr>"

text \<open>An empty checkpoint tree; only the subprocess of the last of the 144 heads fails.\<close>

definition last_fails_world :: world where
  "last_fails_world =
     \<lparr>entries = [], n_class = (\<lambda>t. 17), exit_code = (\<lambda>p. if p = 143 then 1 else 0),
      stderr_text = (\<lambda>p. ''boom'')\<rparr>"

text \<open>
  A tree in which a finetuned checkpoint of NLI exists for the cross-lingual setting, and
  in which the full-model probe of POS on it has already been written.
\<close>

definition finetuned_world :: world where
  "finetuned_world =
     \<lparr>entries =
        [([''checkpoint'', ''NLI_cross''], True),
         ([''checkpoint'', ''NLI_cross'', ''model_5_1.pt''], False),
         ([''checkpoint'', ''NLI_cross'', ''model_5_2.pt''], False),
         ([''checkpoint'', ''full_model_probe'', ''multi_head_training'', ''NLI'', ''cross'',
           ''POS''], True)],
      n_class = (\<lambda>t. 17), exit_code = (\<lambda>p. 0), stderr_text = (\<lambda>p. [])\<rparr>"

text \<open>A tree in which every head of the grid has its completion marker.\<close>

definition probed_world :: world where
  "probed_world =
     \<lparr>entries =
        map (\<lambda>(hl, hi).
               (dir_for_head (head_checkpoint_dir (Experiment ''NLI'') (Experiment ''POS''))
                  CROSS hl hi @ [''model_1_0.pt''], False))
          (List.product [0..<12] [0..<12]),
      n_class = (\<lambda>t. 17), exit_code = (\<lambda>p. 0), stderr_text = (\<lambda>p. [])\<rparr>"

section \<open>The job enumerator, the device assignment and the full-model probe\<close>

subsection \<open>The world is only read\<close>

lemma rglob_update [simp]:
  "rglob (w\<lparr>exit_code := c\<rparr>) d pat = rglob w d pat"
  "rglob (w\<lparr>stderr_text := e\<rparr>) d pat = rglob w d pat"
  by (simp_all add: rglob_def)

lemma is_dir_update [simp]:
  "is_dir (w\<lparr>exit_code := c\<rparr>) d = is_dir w d"
  "is_dir (w\<lparr>stderr_text := e\<rparr>) d = is_dir w d"
  by (simp_all add: is_dir_def)

lemma finetuned_checkpoint_update [simp]:
  "finetuned_checkpoint (w\<lparr>exit_code := c\<rparr>) ft s = finetuned_checkpoint w ft s"
  "finetuned_checkpoint (w\<lparr>stderr_text := e\<rparr>) ft s = finetuned_checkpoint w ft s"
  by (simp_all add: finetuned_checkpoint_def)

lemma finetuned_checkpoint_cases:
  "finetuned_checkpoint w ft s =
     (case rglob w (Path (''checkpoint/'' @ Experiment_name ft @ ''_'' @
                          lower (LingualSetting_name s))) ''model_5*.pt'' of
        [] \<Rightarrow> Inl IndexError
      | c # cs \<Rightarrow> Inr c)"
  by (simp add: finetuned_checkpoint_def item_def split: list.splits)

lemma model_template_update [simp]:
  "model_template (w\<lparr>exit_code := c\<rparr>) s fs ft ds dt devs n cd = model_template w s fs ft ds dt devs n cd"
  "model_template (w\<lparr>stderr_text := e\<rparr>) s fs ft ds dt devs n cd = model_template w s fs ft ds dt devs n cd"
  by (simp_all add: model_template_def Let_def)

lemma str_nat_digit: "n < 10 \<Longrightarrow> str_nat n = [digit n]"
  by (simp add: str_nat.simps)

lemmas eval_defs = is_dir_def finetuned_world_def fresh_world_def model_checkpoint_dir_def joinpath_def Path_def
      lower_def lower_char_def str_path_def task_info_str_def rglob_def item_def

lemma model_template_eq:
  "model_template w s fs ft ds dt devs n cd =
     (if s \<noteq> BASE then
        (case finetuned_checkpoint w ft fs of
           Inl e \<Rightarrow> Inl e
         | Inr c \<Rightarrow>
             Inr ((''python train.py --local_rank -1 '' @ ''--dataset_name '' @
                   Experiment_name dt @ ''/'' @ lower (LingualSetting_name ds) @ '' '') @
                  (''--resume --model_ckpt '' @ str_path c @ '' '') @
                  (''--epochs 2 --output_dir '' @ str_path cd @ '' '' @
                   ''--init_checkpoint bert-base-multilingual-cased '' @ ''--devices '' @
                   devs @ '' '' @ ''--model_probe --model_probe_n_classes '' @ str_int n)))
      else
        Inr ((''python train.py --local_rank -1 '' @ ''--dataset_name '' @
              Experiment_name dt @ ''/'' @ lower (LingualSetting_name ds) @ '' '') @
             (''--epochs 2 --output_dir '' @ str_path cd @ '' '' @
              ''--init_checkpoint bert-base-multilingual-cased '' @ ''--devices '' @
              devs @ '' '' @ ''--model_probe --model_probe_n_classes '' @ str_int n)))"
  by (simp add: model_template_def Let_def split: sum.splits)

lemma model_template_ok:
  assumes "s = BASE \<or> rglob w (Path (''checkpoint/'' @ Experiment_name ft @ ''_'' @
                                     lower (LingualSetting_name fs))) ''model_5*.pt'' \<noteq> []"
  shows "\<exists>t. model_template w s fs ft ds dt devs n cd = Inr t"
proof (cases "s = BASE")
  case True
  then show ?thesis by (simp add: model_template_eq)
next
  case False
  with assms obtain c where "finetuned_checkpoint w ft fs = Inr c"
    by (cases "rglob w (Path (''checkpoint/'' @ Experiment_name ft @ ''_'' @
                                lower (LingualSetting_name fs))) ''model_5*.pt''")
       (auto simp: finetuned_checkpoint_cases)
  with False show ?thesis by (simp add: model_template_eq)
qed

subsection \<open>The full-model probe\<close>

text \<open>
  Claim C7. Whenever the target checkpoint directory of \<^verbatim>\<open>probe_model\<close> exists as a
  directory, the function prints the skip message and returns; no subprocess is started.
\<close>

theorem probe_model_skips_existing:
  assumes "is_dir w (model_checkpoint_dir fs ft ds dt)"
  shows "probe_model w s fs ft ds dt devices =
           ([Print (str_path (model_checkpoint_dir fs ft ds dt) @ '' exists, skipping '' @
                    task_info_str s ft ds dt)], Inr ())
         \<and> launched (fst (probe_model w s fs ft ds dt devices)) = []"
  using assms by (simp add: probe_model_def Let_def)

theorem probe_model_skips_existing_witness:
  "is_dir finetuned_world (model_checkpoint_dir CROSS (Experiment ''NLI'') MULTI (Experiment ''POS''))
   \<and> probe_model finetuned_world CROSS CROSS (Experiment ''NLI'') MULTI (Experiment ''POS'') [0, 1] =
       ([Print ''checkpoint/full_model_probe/multi_head_training/NLI/cross/POS exists, skipping NLI_cross -> POS, multi''],
        Inr ())"
proof -
  have h: "is_dir finetuned_world (model_checkpoint_dir CROSS (Experiment ''NLI'') MULTI (Experiment ''POS''))"
    by (simp add: eval_defs)
  show ?thesis
    using h probe_model_skips_existing [OF h, of CROSS "[0, 1]"]
    by (simp add: eval_defs)
qed

text \<open>
  Claim C8, as stated, fails: when the directory does not exist, the module-level setting
  is not \<^verbatim>\<open>BASE\<close> and no finetuned checkpoint is found, \<^verbatim>\<open>probe_model\<close> raises \<^verbatim>\<open>IndexError\<close>
  and starts no subprocess.
\<close>

theorem probe_model_missing_checkpoint_counterexample:
  "\<not> is_dir (fresh_world 0) (model_checkpoint_dir CROSS (Experiment ''NLI'') MULTI (Experiment ''POS''))
   \<and> probe_model (fresh_world 0) CROSS CROSS (Experiment ''NLI'') MULTI (Experiment ''POS'') [0] =
       ([], Inl IndexError)"
  by (simp add: probe_model_def model_template_def finetuned_checkpoint_def Let_def eval_defs)

text \<open>
  Claim C8, amended. When the target checkpoint directory does not exist and the selection
  of the finetuned checkpoint succeeds (the module-level setting is \<^verbatim>\<open>BASE\<close>, or a file
  \<^verbatim>\<open>model_5*.pt\<close> exists under the finetuned checkpoint directory), \<^verbatim>\<open>probe_model\<close> prints the
  task, starts exactly one subprocess, waits for it and returns normally, whatever the exit
  status and the error output of the subprocess are.
\<close>

theorem probe_model_ignores_exit_code:
  assumes "\<not> is_dir w (model_checkpoint_dir fs ft ds dt)"
      and "s = BASE \<or> rglob w (Path (''checkpoint/'' @ Experiment_name ft @ ''_'' @
                                     lower (LingualSetting_name fs))) ''model_5*.pt'' \<noteq> []"
  shows "\<exists>p. \<forall>c e. probe_model (w\<lparr>exit_code := c, stderr_text := e\<rparr>) s fs ft ds dt devices =
           ([Print (task_info_str s ft ds dt), Popen p, Communicate_all [p]], Inr ())"
proof -
  obtain t where t: "model_template w s fs ft ds dt (join '' '' (map str_int devices))
                       (n_class w (lower (Experiment_name dt)))
                       (model_checkpoint_dir fs ft ds dt) = Inr t"
    using model_template_ok [OF assms(2)] by blast
  show ?thesis
    using assms(1) t by (simp add: probe_model_def Let_def)
qed

theorem probe_model_ignores_exit_code_witness:
  "\<not> is_dir (fresh_world 0) (model_checkpoint_dir BASE (Experiment ''NLI'') MULTI (Experiment ''POS''))
   \<and> (\<exists>p. \<forall>c. probe_model (fresh_world c) BASE BASE (Experiment ''NLI'') MULTI (Experiment ''POS'') [0, 1] =
         ([Print ''NLI_base -> POS, multi'', Popen p, Communicate_all [p]], Inr ()))"
proof -
  have h: "\<not> is_dir (fresh_world 0) (model_checkpoint_dir BASE (Experiment ''NLI'') MULTI (Experiment ''POS''))"
    by (simp add: eval_defs)
  have u: "(fresh_world 0)\<lparr>exit_code := (\<lambda>p. c), stderr_text := (\<lambda>p. ''boom'')\<rparr> = fresh_world c" for c
    by (simp add: fresh_world_def)
  obtain p where p: "\<forall>c e. probe_model ((fresh_world 0)\<lparr>exit_code := c, stderr_text := e\<rparr>) BASE BASE
                      (Experiment ''NLI'') MULTI (Experiment ''POS'') [0, 1] =
           ([Print (task_info_str BASE (Experiment ''NLI'') MULTI (Experiment ''POS'')), Popen p,
             Communicate_all [p]], Inr ())"
    using probe_model_ignores_exit_code [OF h, of BASE "[0, 1]"] by blast
  have "probe_model (fresh_world c) BASE BASE (Experiment ''NLI'') MULTI (Experiment ''POS'') [0, 1] =
         ([Print ''NLI_base -> POS, multi'', Popen p, Communicate_all [p]], Inr ())" for c
  proof -
    have "probe_model ((fresh_world 0)\<lparr>exit_code := (\<lambda>p. c), stderr_text := (\<lambda>p. ''boom'')\<rparr>) BASE BASE
            (Experiment ''NLI'') MULTI (Experiment ''POS'') [0, 1] =
           ([Print (task_info_str BASE (Experiment ''NLI'') MULTI (Experiment ''POS'')), Popen p,
             Communicate_all [p]], Inr ())"
      using p by blast
    then show ?thesis by (simp add: u eval_defs)
  qed
  with h show ?thesis by blast
qed


subsection \<open>The job enumerator\<close>

lemma set_rglob:
  "set (rglob w d pat) =
     {p. \<exists>b. (p, b) \<in> set (entries w) \<and> strict_prefix d p \<and> fnmatch (last p) pat}"
  by (auto simp: rglob_def)

lemma heads_to_probe_iff:
  "(hl, hi) \<in> set (heads_to_probe w cd s) \<longleftrightarrow>
     hl < 12 \<and> hi < 12 \<and> rglob w (dir_for_head cd s hl hi) ''model_1_*.pt'' = []"
  by (auto simp: heads_to_probe_def)

lemma distinct_heads_to_probe: "distinct (heads_to_probe w cd s)"
  by (simp add: heads_to_probe_def distinct_product)

lemma heads_to_probe_Nil_iff:
  "heads_to_probe w cd s = [] \<longleftrightarrow>
     (\<forall>hl<12. \<forall>hi<12. rglob w (dir_for_head cd s hl hi) ''model_1_*.pt'' \<noteq> [])"
proof -
  have "heads_to_probe w cd s = [] \<longleftrightarrow> (\<forall>hl hi. (hl, hi) \<notin> set (heads_to_probe w cd s))"
    by (cases "heads_to_probe w cd s"; cases "hd (heads_to_probe w cd s)") auto
  then show ?thesis by (auto simp: heads_to_probe_iff)
qed

lemma probed_world_markers:
  assumes "hl < 12" "hi < 12"
  shows "rglob probed_world
           (dir_for_head (head_checkpoint_dir (Experiment ''NLI'') (Experiment ''POS'')) CROSS hl hi)
           ''model_1_*.pt'' \<noteq> []"
proof -
  let ?d = "dir_for_head (head_checkpoint_dir (Experiment ''NLI'') (Experiment ''POS'')) CROSS hl hi"
  have "(?d @ [''model_1_0.pt''], False) \<in> set (entries probed_world)"
    using assms by (auto simp: probed_world_def)
  moreover have "strict_prefix ?d (?d @ [''model_1_0.pt''])" by (auto simp: strict_prefix_def)
  moreover have "fnmatch (last (?d @ [''model_1_0.pt''])) ''model_1_*.pt''" by simp
  ultimately have "?d @ [''model_1_0.pt''] \<in> set (rglob probed_world ?d ''model_1_*.pt'')"
    unfolding set_rglob by blast
  then show ?thesis by auto
qed

subsection \<open>Device assignment\<close>

lemma item_Inr_iff: "item xs i = Inr x \<longleftrightarrow> i < length xs \<and> xs ! i = x"
  by (auto simp: item_def)

lemma assign_devices_eq:
  "devices \<noteq> [] \<Longrightarrow>
   assign_devices devices i heads acc =
     Inr (acc @ map (\<lambda>j. devices ! (j mod length devices)) [i ..< i + length heads])"
proof (induction heads arbitrary: i acc)
  case Nil
  then show ?case by simp
next
  case (Cons hp rest)
  have "[i ..< i + length (hp # rest)] = i # [Suc i ..< Suc i + length rest]"
    using upt_conv_Cons [of i "Suc (i + length rest)"] by simp
  with Cons show ?case by (simp add: item_def)
qed




section \<open>The batch dispatcher\<close>

subsection \<open>Traces\<close>

lemma outstanding_append: "outstanding rs (xs @ ys) = outstanding (outstanding rs xs) ys"
  by (induction rs xs rule: outstanding.induct) simp_all

lemma launched_append: "launched (xs @ ys) = launched xs @ launched ys"
  by (induction xs rule: launched.induct) simp_all

lemma batch_joins_append: "batch_joins (xs @ ys) = batch_joins xs @ batch_joins ys"
  by (induction xs rule: batch_joins.induct) simp_all

lemma printed_append: "printed (xs @ ys) = printed xs @ printed ys"
  by (induction xs rule: printed.induct) simp_all

lemma capped_append: "capped B rs (xs @ ys) \<longleftrightarrow> capped B rs xs \<and> capped B (outstanding rs xs) ys"
proof (induction xs arbitrary: rs)
  case Nil
  then show ?case by (cases ys) auto
next
  case (Cons e es)
  have "outstanding rs (e # es) = outstanding (outstanding rs [e]) es"
    using outstanding_append [of rs "[e]" es] by simp
  with Cons show ?case by auto
qed

lemma drained_append: "drained rs (xs @ ys) \<longleftrightarrow> drained rs xs \<and> drained (outstanding rs xs) ys"
  by (induction rs xs rule: drained.induct) auto

lemma outstanding_prints [simp]: "outstanding rs (map Print xs) = rs"
  by (induction xs) simp_all

lemma launched_prints [simp]: "launched (map Print xs) = []"
  by (induction xs) simp_all

lemma batch_joins_prints [simp]: "batch_joins (map Print xs) = []"
  by (induction xs) simp_all

lemma capped_prints [simp]: "capped B rs (map Print xs) \<longleftrightarrow> length rs \<le> B"
  by (induction xs) auto

lemma drained_prints [simp]: "drained rs (map Print xs)"
  by (induction xs) simp_all

lemma printed_prints [simp]: "printed (map Print xs) = xs"
  by (induction xs) simp_all

lemma capped_take:
  "capped B rs T \<longleftrightarrow> (\<forall>k. length (outstanding rs (take k T)) \<le> B)"
proof (induction T arbitrary: rs)
  case Nil
  then show ?case by simp
next
  case (Cons e es)
  have step: "outstanding rs (e # xs) = outstanding (outstanding rs [e]) xs" for xs
    using outstanding_append [of rs "[e]" xs] by simp
  show ?case
  proof
    assume a: "capped B rs (e # es)"
    show "\<forall>k. length (outstanding rs (take k (e # es))) \<le> B"
    proof
      fix k
      show "length (outstanding rs (take k (e # es))) \<le> B"
      proof (cases k)
        case 0
        with a show ?thesis by simp
      next
        case (Suc j)
        from a have "capped B (outstanding rs [e]) es" by simp
        then have "length (outstanding (outstanding rs [e]) (take j es)) \<le> B"
          using Cons.IH by blast
        with Suc show ?thesis using step [of "take j es"] by simp
      qed
    qed
  next
    assume a: "\<forall>k. length (outstanding rs (take k (e # es))) \<le> B"
    from a [rule_format, of 0] have "length rs \<le> B" by simp
    moreover have "length (outstanding (outstanding rs [e]) (take j es)) \<le> B" for j
      using a [rule_format, of "Suc j"] step [of "take j es"] by simp
    then have "capped B (outstanding rs [e]) es"
      using Cons.IH by blast
    ultimately show "capped B rs (e # es)" by simp
  qed
qed

lemma drained_nth:
  "drained rs T \<Longrightarrow> k < length T \<Longrightarrow> T ! k = Communicate_all ps \<Longrightarrow>
   outstanding rs (take (Suc k) T) = []"
proof (induction rs T arbitrary: k rule: drained.induct)
  case (1 rs)
  then show ?case by simp
next
  case (2 rs qs es)
  then show ?case by (cases k) auto
next
  case (3 rs p es)
  then show ?case by (cases k) auto
next
  case (4 rs s es)
  then show ?case by (cases k) auto
next
  case (5 rs d es)
  then show ?case by (cases k) auto
qed

subsection \<open>Results\<close>

lemma prepend_simps [simp]:
  "prepend evs (T, r) = (evs @ T, r)"
  "fst (prepend evs x) = evs @ fst x"
  "snd (prepend evs x) = snd x"
  by (simp_all add: prepend_def)

subsection \<open>The command line of a head probe\<close>

lemma finetuned_checkpoint_entries:
  "entries w' = entries w \<Longrightarrow> finetuned_checkpoint w' ft s = finetuned_checkpoint w ft s"
  by (simp add: finetuned_checkpoint_def rglob_def)

lemma head_template_eq:
  "head_template w s ft t n cdh did hl hi =
     (if s \<noteq> BASE then
        (case finetuned_checkpoint w ft s of
           Inl e \<Rightarrow> Inl e
         | Inr c \<Rightarrow>
             Inr ((''python train.py --local_rank -1 '' @ ''--dataset_name '' @
                   Experiment_name t @ ''/cross '') @
                  (''--resume --model_ckpt '' @ str_path c @ '' '') @
                  (''--epochs 2 --output_dir '' @ str_path cdh @ '' '' @
                   ''--init_checkpoint bert-base-multilingual-cased '' @ ''--devices '' @
                   str_int did @ '' '' @ ''--head_probe --head_probe_layer '' @ str_nat hl @
                   '' --head_probe_idx '' @ str_nat hi @ '' --head_probe_n_classes '' @
                   str_int n)))
      else
        Inr ((''python train.py --local_rank -1 '' @ ''--dataset_name '' @
              Experiment_name t @ ''/cross '') @
             (''--epochs 2 --output_dir '' @ str_path cdh @ '' '' @
              ''--init_checkpoint bert-base-multilingual-cased '' @ ''--devices '' @
              str_int did @ '' '' @ ''--head_probe --head_probe_layer '' @ str_nat hl @
              '' --head_probe_idx '' @ str_nat hi @ '' --head_probe_n_classes '' @
              str_int n)))"
  by (simp add: head_template_def Let_def split: sum.splits)

lemma head_template_entries:
  "entries w' = entries w \<Longrightarrow>
   head_template w' s ft t n cdh did hl hi = head_template w s ft t n cdh did hl hi"
  using finetuned_checkpoint_entries [of w' w ft s] by (simp add: head_template_eq)

lemma head_template_ok:
  assumes "s = BASE \<or> finetuned_checkpoint w ft s \<noteq> Inl IndexError"
  shows "\<exists>c. head_template w s ft t n cdh did hl hi = Inr c"
proof (cases "s = BASE")
  case True
  then show ?thesis by (simp add: head_template_eq)
next
  case False
  with assms obtain c where "finetuned_checkpoint w ft s = Inr c"
    by (cases "rglob w (Path (''checkpoint/'' @ Experiment_name ft @ ''_'' @
                                lower (LingualSetting_name s))) ''model_5*.pt''")
       (auto simp: finetuned_checkpoint_cases)
  with False show ?thesis by (simp add: head_template_eq)
qed

lemma head_template_fails:
  assumes "s \<noteq> BASE" "finetuned_checkpoint w ft s = Inl IndexError"
  shows "head_template w s ft t n cdh did hl hi = Inl IndexError"
  using assms by (simp add: head_template_eq)

subsection \<open>Inspecting a batch\<close>

lemma check_results_prints:
  "\<exists>xs. fst (check_results w s P ri rs) = map Print xs"
proof (induction rs arbitrary: ri)
  case Nil
  show ?case by (rule exI [of _ "[]"]) simp
next
  case (Cons r rest)
  obtain xs where xs: "fst (check_results w s P (Suc ri) rest) = map Print xs"
    using Cons.IH by blast
  show ?case
  proof (cases "item P ri")
    case (Inl e)
    then show ?thesis by (intro exI [of _ "[]"]) simp
  next
    case (Inr p)
    obtain hl hi did process where p: "p = (hl, hi, did, process)"
      by (cases p) auto
    let ?pre = "''['' @ LingualSetting_name s @ ''] [GPU '' @ str_int did @ ''] '' @
                 str_tuple (hl, hi) @ '':''"
    show ?thesis
    proof (cases "snd r")
      case None
      with Inr p xs show ?thesis
        by (intro exI [of _ "(?pre @ '' completed'') # xs"]) (simp add: Let_def)
    next
      case (Some err)
      show ?thesis
      proof (cases "returncode w process = 1")
        case True
        with Inr p Some show ?thesis
          by (intro exI [of _ "?pre # map (\<lambda>e. CHR 0x09 # e) (split_str err CHR 0x0A)"])
             (simp add: Let_def comp_def)
      next
        case False
        with Inr p Some xs show ?thesis
          by (intro exI [of _ "(?pre @ '' completed'') # xs"]) (simp add: Let_def)
      qed
    qed
  qed
qed

lemma check_results_cong:
  assumes "\<forall>p\<in>set P. (returncode w' (handle p) = 1) = (returncode w (handle p) = 1)"
  shows "check_results w' s P ri rs = check_results w s P ri rs"
proof (induction rs arbitrary: ri)
  case Nil
  show ?case by simp
next
  case (Cons r rest)
  show ?case
  proof (cases "item P ri")
    case (Inl e)
    then show ?thesis by simp
  next
    case (Inr p)
    then have "p \<in> set P" by (auto simp: item_def split: if_splits)
    with assms have "(returncode w' (handle p) = 1) = (returncode w (handle p) = 1)"
      by blast
    moreover obtain hl hi did process where p: "p = (hl, hi, did, process)"
      by (cases p) auto
    ultimately show ?thesis
      using Inr Cons.IH [of "Suc ri"] by (simp add: handle_def Let_def split: option.splits)
  qed
qed

lemma check_results_completed:
  assumes "\<forall>p\<in>set P. returncode w (handle p) \<noteq> 1" "length rs + ri = length P"
  shows "check_results w s P ri rs = (map (\<lambda>p. Print (completed_line s p)) (drop ri P), Inr ())"
  using assms(2)
proof (induction rs arbitrary: ri)
  case Nil
  then show ?case by simp
next
  case (Cons r rest)
  then have ri: "ri < length P" by simp
  then have d: "drop ri P = P ! ri # drop (Suc ri) P"
    by (simp add: Cons_nth_drop_Suc)
  obtain hl hi did process where p: "P ! ri = (hl, hi, did, process)"
    by (cases "P ! ri") auto
  from ri have "P ! ri \<in> set P" by simp
  with assms(1) p have rc: "returncode w process \<noteq> 1"
    by (auto simp: handle_def)
  have "check_results w s P (Suc ri) rest =
          (map (\<lambda>p. Print (completed_line s p)) (drop (Suc ri) P), Inr ())"
    using Cons by simp
  with ri p rc show ?case
    by (simp add: d item_def Let_def completed_line_def split: option.splits)
qed

lemma wait_batch_cong:
  assumes "\<forall>p\<in>set P. (returncode w' (handle p) = 1) = (returncode w (handle p) = 1)"
      and "\<forall>p\<in>set P. communicate w' (handle p) = communicate w (handle p)"
  shows "wait_batch w' s P = wait_batch w s P"
proof -
  have "map (\<lambda>p. communicate w' (handle p)) P = map (\<lambda>p. communicate w (handle p)) P"
    using assms(2) by simp
  then show ?thesis
    unfolding wait_batch_def Let_def by (simp only: check_results_cong [OF assms(1)])
qed

lemma wait_batch_completed:
  assumes "\<forall>p\<in>set P. returncode w (handle p) \<noteq> 1"
  shows "wait_batch w s P =
           (Communicate_all (map handle P) # map (\<lambda>p. Print (completed_line s p)) P, Inr ())"
  using check_results_completed [OF assms, of "map (\<lambda>p. communicate w (handle p)) P" 0 s]
  by (simp add: wait_batch_def)

lemma wait_batch_shape:
  "\<exists>xs. fst (wait_batch w s P) = Communicate_all (map handle P) # map Print xs"
  using check_results_prints [of w s P 0 "map (\<lambda>p. communicate w (handle p)) P"]
  by (auto simp: wait_batch_def)

subsection \<open>The launch loop\<close>

lemma launch_all_step:
  assumes "item ids i = Inr did"
      and "head_template w s ft t n (dir_for_head cd s hl hi) did hl hi = Inr c"
  shows "launch_all w s ft t mpg devs n cd ids i ((hl, hi) # rest) P =
     prepend
       [Mkdir (dir_for_head cd s hl hi),
        Print (''['' @ LingualSetting_name s @ ''] [GPU '' @ str_int did @ ''] '' @
               Experiment_name ft @ ''->'' @ Experiment_name t @ '' '' @ str_tuple (hl, hi)),
        Popen \<lparr>args = c, pid = i, stdout_devnull = True, stderr_pipe = True\<rparr>]
       (if int (length (P @ [(hl, hi, did,
               \<lparr>args = c, pid = i, stdout_devnull = True, stderr_pipe = True\<rparr>)])) =
           int (length devs) * mpg then
          (case wait_batch w s (P @ [(hl, hi, did,
                   \<lparr>args = c, pid = i, stdout_devnull = True, stderr_pipe = True\<rparr>)]) of
             (evs, Inl e) \<Rightarrow> (evs, Inl e)
           | (evs, Inr u) \<Rightarrow>
               prepend evs (launch_all w s ft t mpg devs n cd ids (Suc i) rest []))
        else launch_all w s ft t mpg devs n cd ids (Suc i) rest
               (P @ [(hl, hi, did,
                  \<lparr>args = c, pid = i, stdout_devnull = True, stderr_pipe = True\<rparr>)]))"
  using assms by (simp add: Let_def)

lemma launch_all_item_fails:
  "item ids i = Inl e \<Longrightarrow>
   launch_all w s ft t mpg devs n cd ids i ((hl, hi) # rest) P = ([], Inl e)"
  by simp

lemma launch_all_template_fails:
  "item ids i = Inr did \<Longrightarrow>
   head_template w s ft t n (dir_for_head cd s hl hi) did hl hi = Inl e \<Longrightarrow>
   launch_all w s ft t mpg devs n cd ids i ((hl, hi) # rest) P =
     ([Mkdir (dir_for_head cd s hl hi)], Inl e)"
  by (simp add: Let_def)

lemma filling_length: "filling B i P \<Longrightarrow> length P = i mod B"
proof -
  assume "filling B i P"
  then have "length (map (\<lambda>p. pid (handle p)) P) = length [i - i mod B ..< i]"
    by (simp add: filling_def)
  moreover have "i mod B \<le> i" by simp
  ultimately show ?thesis by simp
qed

lemma filling_start [simp]: "filling B 0 []"
  by (simp add: filling_def)

lemma full_iff:
  assumes "B = nat (int (length devs) * mpg)" "filling B i P"
  shows "int (length (P @ [x])) = int (length devs) * mpg \<longleftrightarrow> Suc (i mod B) = B"
  using assms filling_length [OF assms(2)] by auto

lemma filling_full:
  assumes "filling B i P" "Suc (i mod B) = B"
  shows "filling B (Suc i) []"
  using assms by (simp add: filling_def mod_Suc)

lemma filling_next:
  assumes "filling B i P" "Suc (i mod B) \<noteq> B"
  shows "filling B (Suc i)
           (P @ [(hl, hi, did, \<lparr>args = c, pid = i, stdout_devnull = True, stderr_pipe = True\<rparr>)])"
proof -
  have "i mod B \<le> i" by simp
  then have "[i - i mod B ..< Suc i] = [i - i mod B ..< i] @ [i]" by simp
  moreover have "Suc i - Suc (i mod B) = i - i mod B" by simp
  ultimately show ?thesis
    using assms by (simp add: filling_def mod_Suc handle_def)
qed

lemma filling_pids:
  assumes "filling B i P" "p \<in> set P"
  shows "pid (handle p) < i"
proof -
  have "pid (handle p) \<in> set (map (\<lambda>p. pid (handle p)) P)"
    using assms(2) by auto
  also have "map (\<lambda>p. pid (handle p)) P = [i - i mod B ..< i]"
    using assms(1) by (simp add: filling_def)
  finally show ?thesis by simp
qed

lemma full_batch_below:
  assumes "Suc (i mod B) = B"
  shows "Suc i \<le> B * ((Suc i + r) div B)"
proof -
  have "Suc i mod B = 0" using assms by (simp add: mod_Suc)
  then obtain k where k: "Suc i = B * k" by auto
  have B: "0 < B" using assms by (cases B) auto
  have "(B * k + r) div B = k + r div B" using B by simp
  then show ?thesis using k by simp
qed

lemma launch_all_cong:
  assumes e: "entries w' = entries w"
      and B: "B = nat (int (length devs) * mpg)"
      and agree: "\<forall>q < B * ((i + length hs) div B).
                    (exit_code w' q = 1) = (exit_code w q = 1) \<and>
                    stderr_text w' q = stderr_text w q"
      and f: "filling B i P"
  shows "launch_all w' s ft t mpg devs n cd ids i hs P =
         launch_all w s ft t mpg devs n cd ids i hs P"
  using agree f
proof (induction hs arbitrary: i P)
  case Nil
  show ?case by simp
next
  case (Cons hp rest)
  obtain hl hi where hp: "hp = (hl, hi)" by (cases hp) auto
  show ?case
  proof (cases "item ids i")
    case (Inl x)
    then show ?thesis by (simp add: hp)
  next
    case (Inr did)
    have tm: "head_template w' s ft t n (dir_for_head cd s hl hi) did hl hi =
              head_template w s ft t n (dir_for_head cd s hl hi) did hl hi"
      by (rule head_template_entries [OF e])
    show ?thesis
    proof (cases "head_template w s ft t n (dir_for_head cd s hl hi) did hl hi")
      case (Inl x)
      then show ?thesis
        using Inr tm by (simp add: hp launch_all_template_fails)
    next
      case c: (Inr c)
      let ?p = "\<lparr>args = c, pid = i, stdout_devnull = True, stderr_pipe = True\<rparr>"
      let ?P = "P @ [(hl, hi, did, ?p)]"
      note full = full_iff [OF B Cons.prems(2), of "(hl, hi, did, ?p)"]
      note tm' = tm [unfolded c]
      show ?thesis
      proof (cases "Suc (i mod B) = B")
        case True
        have below: "Suc i \<le> B * ((i + length (hp # rest)) div B)"
          using full_batch_below [OF True, of "length rest"] by simp
        have pids: "pid (handle p) < B * ((i + length (hp # rest)) div B)" if "p \<in> set ?P" for p
        proof (cases "p \<in> set P")
          case True
          from filling_pids [OF Cons.prems(2) this] below show ?thesis by simp
        next
          case False
          with that have "p = (hl, hi, did, ?p)" by simp
          then show ?thesis using below by (simp add: handle_def)
        qed
        have wb: "wait_batch w' s ?P = wait_batch w s ?P"
        proof (rule wait_batch_cong)
          show "\<forall>p\<in>set ?P. (returncode w' (handle p) = 1) = (returncode w (handle p) = 1)"
            using pids Cons.prems(1) unfolding returncode_def by blast
          show "\<forall>p\<in>set ?P. communicate w' (handle p) = communicate w (handle p)"
            using pids Cons.prems(1) unfolding communicate_def by auto
        qed
        have "launch_all w' s ft t mpg devs n cd ids (Suc i) rest [] =
              launch_all w s ft t mpg devs n cd ids (Suc i) rest []"
        proof (rule Cons.IH)
          show "\<forall>q < B * ((Suc i + length rest) div B).
                  (exit_code w' q = 1) = (exit_code w q = 1) \<and>
                  stderr_text w' q = stderr_text w q"
            using Cons.prems(1) by simp
          show "filling B (Suc i) []"
            by (rule filling_full [OF Cons.prems(2) True])
        qed
        moreover have "int (length ?P) = int (length devs) * mpg"
          using True full by blast
        ultimately show ?thesis
          unfolding hp launch_all_step [OF Inr c] launch_all_step [OF Inr tm']
          using wb by (simp del: launch_all.simps)
      next
        case False
        have "launch_all w' s ft t mpg devs n cd ids (Suc i) rest ?P =
              launch_all w s ft t mpg devs n cd ids (Suc i) rest ?P"
        proof (rule Cons.IH)
          show "\<forall>q < B * ((Suc i + length rest) div B).
                  (exit_code w' q = 1) = (exit_code w q = 1) \<and>
                  stderr_text w' q = stderr_text w q"
            using Cons.prems(1) by simp
          show "filling B (Suc i) ?P"
            by (rule filling_next [OF Cons.prems(2) False])
        qed
        moreover have "int (length ?P) \<noteq> int (length devs) * mpg"
          using False full by blast
        ultimately show ?thesis
          unfolding hp launch_all_step [OF Inr c] launch_all_step [OF Inr tm']
          by (simp del: launch_all.simps)
      qed
    qed
  qed
qed

lemma handle_tuple [simp]: "handle (hl, hi, did, p) = p"
  by (simp add: handle_def)

lemma div_Suc_full: "Suc (i mod B) = B \<Longrightarrow> Suc i div B = Suc (i div B)"
  by (simp add: div_Suc mod_Suc)

lemma div_Suc_next: "Suc (i mod B) \<noteq> B \<Longrightarrow> Suc i div B = i div B"
  by (simp add: div_Suc mod_Suc)

lemma launch_all_trace:
  assumes B: "B = nat (int (length devs) * mpg)"
      and f: "filling B i P"
  shows "(0 < B \<longrightarrow> capped B (map handle P) (fst (launch_all w s ft t mpg devs n cd ids i hs P)))
       \<and> drained (map handle P) (fst (launch_all w s ft t mpg devs n cd ids i hs P))
       \<and> (\<forall>Pf. snd (launch_all w s ft t mpg devs n cd ids i hs P) = Inr Pf \<longrightarrow>
            outstanding (map handle P) (fst (launch_all w s ft t mpg devs n cd ids i hs P)) =
              map handle Pf
            \<and> filling B (i + length hs) Pf
            \<and> map pid (launched (fst (launch_all w s ft t mpg devs n cd ids i hs P))) =
                [i ..< i + length hs]
            \<and> length (batch_joins (fst (launch_all w s ft t mpg devs n cd ids i hs P))) =
                (i + length hs) div B - i div B)"
  using f
proof (induction hs arbitrary: i P)
  case Nil
  have "length P = i mod B" by (rule filling_length [OF Nil])
  moreover have "i mod B < B" if "0 < B" using that by simp
  ultimately show ?case using Nil by auto
next
  case (Cons hp rest)
  obtain hl hi where hp: "hp = (hl, hi)" by (cases hp) auto
  have len: "length P = i mod B" by (rule filling_length [OF Cons.prems])
  have lt: "0 < B \<longrightarrow> length P \<le> B \<and> Suc (length P) \<le> B"
    using len by (auto simp: Suc_le_eq)
  show ?case
  proof (cases "item ids i")
    case (Inl x)
    then show ?thesis using lt by (simp add: hp)
  next
    case (Inr did)
    show ?thesis
    proof (cases "head_template w s ft t n (dir_for_head cd s hl hi) did hl hi")
      case (Inl x)
      then show ?thesis
        using Inr lt by (simp add: hp launch_all_template_fails del: launch_all.simps)
    next
      case c: (Inr c)
      let ?p = "\<lparr>args = c, pid = i, stdout_devnull = True, stderr_pipe = True\<rparr>"
      let ?P = "P @ [(hl, hi, did, ?p)]"
      note full = full_iff [OF B Cons.prems, of "(hl, hi, did, ?p)"]
      have hP: "map handle ?P = map handle P @ [?p]" by (simp add: handle_def)
      show ?thesis
      proof (cases "Suc (i mod B) = B")
        case True
        let ?r = "launch_all w s ft t mpg devs n cd ids (Suc i) rest []"
        have fullP: "int (length ?P) = int (length devs) * mpg"
          using True full by blast
        have lenP: "length ?P = B" using len True by simp
        obtain xs where xs: "fst (wait_batch w s ?P) = Communicate_all (map handle ?P) # map Print xs"
          using wait_batch_shape by blast
        have IH: "(0 < B \<longrightarrow> capped B (map handle []) (fst ?r))
           \<and> drained (map handle []) (fst ?r)
           \<and> (\<forall>Pf. snd ?r = Inr Pf \<longrightarrow>
                outstanding (map handle []) (fst ?r) = map handle Pf
                \<and> filling B (Suc i + length rest) Pf
                \<and> map pid (launched (fst ?r)) = [Suc i ..< Suc i + length rest]
                \<and> length (batch_joins (fst ?r)) = (Suc i + length rest) div B - Suc i div B)"
          by (rule Cons.IH [OF filling_full [OF Cons.prems True]])
        have le: "Suc i div B \<le> (Suc i + length rest) div B"
          by (rule div_le_mono) simp
        have cnt: "Suc ((Suc i + length rest) div B - Suc i div B) =
                   (Suc i + length rest) div B - i div B"
          using le div_Suc_full [OF True] by simp
        have up: "[i ..< Suc (i + length rest)] = i # [Suc i ..< Suc (i + length rest)]"
          using upt_conv_Cons [of i "Suc (i + length rest)"] by simp
        show ?thesis
        proof (cases "wait_batch w s ?P")
          case (Pair evs res)
          with xs have evs: "evs = Communicate_all (map handle ?P) # map Print xs" by simp
          show ?thesis
          proof (cases res)
            case (Inl e)
            have r: "launch_all w s ft t mpg devs n cd ids i (hp # rest) P =
                  ([Mkdir (dir_for_head cd s hl hi),
                    Print (''['' @ LingualSetting_name s @ ''] [GPU '' @ str_int did @ ''] '' @
                           Experiment_name ft @ ''->'' @ Experiment_name t @ '' '' @
                           str_tuple (hl, hi)),
                    Popen ?p] @ evs, Inl e)"
              unfolding hp launch_all_step [OF Inr c] using fullP Pair Inl
              by (simp del: launch_all.simps)
            show ?thesis
              unfolding r using lenP len
              by (simp add: evs hP del: launch_all.simps)
          next
            case (Inr u)
            have r: "launch_all w s ft t mpg devs n cd ids i (hp # rest) P =
                  prepend ([Mkdir (dir_for_head cd s hl hi),
                    Print (''['' @ LingualSetting_name s @ ''] [GPU '' @ str_int did @ ''] '' @
                           Experiment_name ft @ ''->'' @ Experiment_name t @ '' '' @
                           str_tuple (hl, hi)),
                    Popen ?p] @ evs) ?r"
              unfolding hp launch_all_step [OF \<open>item ids i = Inr did\<close> c] using fullP Pair Inr
              by (simp add: prepend_def del: launch_all.simps)
            show ?thesis
              unfolding r using lenP len IH cnt up
              by (simp add: evs hP capped_append drained_append outstanding_append
                    launched_append batch_joins_append del: launch_all.simps)
          qed
        qed
      next
        case False
        let ?r = "launch_all w s ft t mpg devs n cd ids (Suc i) rest ?P"
        have nfull: "int (length ?P) \<noteq> int (length devs) * mpg"
          using False full by blast
        have IH: "(0 < B \<longrightarrow> capped B (map handle ?P) (fst ?r))
           \<and> drained (map handle ?P) (fst ?r)
           \<and> (\<forall>Pf. snd ?r = Inr Pf \<longrightarrow>
                outstanding (map handle ?P) (fst ?r) = map handle Pf
                \<and> filling B (Suc i + length rest) Pf
                \<and> map pid (launched (fst ?r)) = [Suc i ..< Suc i + length rest]
                \<and> length (batch_joins (fst ?r)) = (Suc i + length rest) div B - Suc i div B)"
          by (rule Cons.IH [OF filling_next [OF Cons.prems False]])
        have up: "[i ..< Suc (i + length rest)] = i # [Suc i ..< Suc (i + length rest)]"
          using upt_conv_Cons [of i "Suc (i + length rest)"] by simp
        have r: "launch_all w s ft t mpg devs n cd ids i (hp # rest) P =
              prepend [Mkdir (dir_for_head cd s hl hi),
                Print (''['' @ LingualSetting_name s @ ''] [GPU '' @ str_int did @ ''] '' @
                       Experiment_name ft @ ''->'' @ Experiment_name t @ '' '' @
                       str_tuple (hl, hi)),
                Popen ?p] ?r"
          unfolding hp launch_all_step [OF Inr c] using nfull
          by (simp del: launch_all.simps)
        show ?thesis
          unfolding r using len lt IH up div_Suc_next [OF False]
          by (simp add: hP del: launch_all.simps)
      qed
    qed
  qed
qed

lemma launch_all_ok:
  assumes B: "B = nat (int (length devs) * mpg)"
      and f: "filling B i P"
      and ids: "i + length hs \<le> length ids"
      and ck: "s = BASE \<or> finetuned_checkpoint w ft s \<noteq> Inl IndexError"
      and ok: "\<forall>q < B * ((i + length hs) div B). exit_code w q \<noteq> 1"
  shows "\<exists>Pf. snd (launch_all w s ft t mpg devs n cd ids i hs P) = Inr Pf"
  using f ids ok
proof (induction hs arbitrary: i P)
  case Nil
  show ?case by simp
next
  case (Cons hp rest)
  obtain hl hi where hp: "hp = (hl, hi)" by (cases hp) auto
  from Cons.prems(2) have "i < length ids" by simp
  then obtain did where did: "item ids i = Inr did" by (simp add: item_def)
  obtain c where c: "head_template w s ft t n (dir_for_head cd s hl hi) did hl hi = Inr c"
    using head_template_ok [OF ck] by blast
  let ?p = "\<lparr>args = c, pid = i, stdout_devnull = True, stderr_pipe = True\<rparr>"
  let ?P = "P @ [(hl, hi, did, ?p)]"
  note full = full_iff [OF B Cons.prems(1), of "(hl, hi, did, ?p)"]
  have ids': "Suc i + length rest \<le> length ids" using Cons.prems(2) by simp
  have ok': "\<forall>q < B * ((Suc i + length rest) div B). exit_code w q \<noteq> 1"
    using Cons.prems(3) by simp
  show ?case
  proof (cases "Suc (i mod B) = B")
    case True
    have fullP: "int (length ?P) = int (length devs) * mpg"
      using True full by blast
    have below: "Suc i \<le> B * ((i + length (hp # rest)) div B)"
      using full_batch_below [OF True, of "length rest"] by simp
    have "returncode w (handle p) \<noteq> 1" if "p \<in> set ?P" for p
    proof -
      have "pid (handle p) < Suc i"
      proof (cases "p \<in> set P")
        case True
        from filling_pids [OF Cons.prems(1) this] show ?thesis by simp
      next
        case False
        with that have "p = (hl, hi, did, ?p)" by simp
        then show ?thesis by simp
      qed
      with below Cons.prems(3) show ?thesis by (simp add: returncode_def)
    qed
    then have wb: "wait_batch w s ?P =
        (Communicate_all (map handle ?P) # map (\<lambda>p. Print (completed_line s p)) ?P, Inr ())"
      using wait_batch_completed [of ?P w s] by blast
    obtain Pf where "snd (launch_all w s ft t mpg devs n cd ids (Suc i) rest []) = Inr Pf"
      using Cons.IH [OF filling_full [OF Cons.prems(1) True] ids' ok'] by blast
    then show ?thesis
      unfolding hp launch_all_step [OF did c] using fullP wb
      by (simp del: launch_all.simps)
  next
    case False
    have nfull: "int (length ?P) \<noteq> int (length devs) * mpg"
      using False full by blast
    obtain Pf where "snd (launch_all w s ft t mpg devs n cd ids (Suc i) rest ?P) = Inr Pf"
      using Cons.IH [OF filling_next [OF Cons.prems(1) False] ids' ok'] by blast
    then show ?thesis
      unfolding hp launch_all_step [OF did c] using nfull
      by (simp del: launch_all.simps)
  qed
qed

lemma print_heads_ok:
  "i + length hs \<le> length ids \<Longrightarrow> \<exists>xs. print_heads s ids i hs = (map Print xs, Inr ())"
proof (induction hs arbitrary: i)
  case Nil
  show ?case by (rule exI [of _ "[]"]) simp
next
  case (Cons hp rest)
  then have "i < length ids" by simp
  then obtain d where d: "item ids i = Inr d" by (simp add: item_def)
  from Cons obtain xs where "print_heads s ids (Suc i) rest = (map Print xs, Inr ())"
    by fastforce
  with d show ?case
    by (intro exI [of _ "(lower (LingualSetting_name s) @ '' '' @ str_tuple hp @ '' '' @
                          ''GPU: '' @ str_int d) # xs"]) simp
qed

text \<open>The device of every pending head, as the assignment loop computes it.\<close>

lemma assign_devices_start:
  "devs \<noteq> [] \<Longrightarrow>
   assign_devices devs 0 heads [] =
     Inr (map (\<lambda>j. devs ! (j mod length devs)) [0 ..< length heads])"
  by (simp add: assign_devices_eq)

lemma probe_heads_unfold:
  assumes "heads_to_probe w (head_checkpoint_dir ft t) s = heads" "heads \<noteq> []" "devs \<noteq> []"
      and "ids = map (\<lambda>j. devs ! (j mod length devs)) [0 ..< length heads]"
  shows "probe_heads w s ft t mpg devs =
     prepend (Print ''heads to probe:'' # fst (print_heads s ids 0 heads) @ [Print [CHR 0x0A]])
       (case launch_all w s ft t mpg devs (n_class w (lower (Experiment_name t)))
               (head_checkpoint_dir ft t) ids 0 heads [] of
          (T, Inl e) \<Rightarrow> (T, Inl e)
        | (T, Inr Pf) \<Rightarrow> (T @ [Communicate_all (map handle Pf)], Inr ()))"
proof -
  have a: "assign_devices devs 0 heads [] = Inr ids"
    using assms(3,4) by (simp add: assign_devices_start)
  have "0 + length heads \<le> length ids" using assms(4) by simp
  then obtain xs where xs: "print_heads s ids 0 heads = (map Print xs, Inr ())"
    using print_heads_ok by blast
  show ?thesis
    using assms(1,2) a xs
    by (simp add: probe_heads_def Let_def split: prod.splits sum.splits)
qed

lemma print_heads_prints:
  assumes "ids = map (\<lambda>j. devs ! (j mod length devs)) [0 ..< length heads]"
  shows "\<exists>xs. Print ''heads to probe:'' # fst (print_heads s ids 0 heads) @ [Print [CHR 0x0A]] =
              map Print xs"
proof -
  have "0 + length heads \<le> length ids" using assms by simp
  then obtain xs where xs: "print_heads s ids 0 heads = (map Print xs, Inr ())"
    using print_heads_ok by blast
  show ?thesis
    by (rule exI [of _ "''heads to probe:'' # xs @ [[CHR 0x0A]]"]) (simp add: xs)
qed

lemma heads_to_probe_entries:
  "entries w' = entries w \<Longrightarrow> heads_to_probe w' cd s = heads_to_probe w cd s"
  by (simp add: heads_to_probe_def rglob_def)

lemma assign_devices_empty:
  "heads \<noteq> [] \<Longrightarrow> assign_devices [] i heads acc = Inl ZeroDivisionError"
  by (cases heads) simp_all

lemma probe_heads_no_heads:
  "heads_to_probe w (head_checkpoint_dir ft t) s = [] \<Longrightarrow>
   probe_heads w s ft t mpg devs = ([], Inr ())"
  by (simp add: probe_heads_def Let_def)

lemma probe_heads_no_devices:
  "heads_to_probe w (head_checkpoint_dir ft t) s \<noteq> [] \<Longrightarrow>
   probe_heads w s ft t mpg [] = ([], Inl ZeroDivisionError)"
  by (simp add: probe_heads_def Let_def assign_devices_empty)

lemma probe_heads_cong:
  assumes e: "entries w' = entries w" and nc: "n_class w' = n_class w"
      and agree: "\<forall>q < nat (int (length devs) * mpg) *
                        (length (heads_to_probe w (head_checkpoint_dir ft t) s) div
                         nat (int (length devs) * mpg)).
                    (exit_code w' q = 1) = (exit_code w q = 1) \<and>
                    stderr_text w' q = stderr_text w q"
  shows "probe_heads w' s ft t mpg devs = probe_heads w s ft t mpg devs"
proof -
  let ?heads = "heads_to_probe w (head_checkpoint_dir ft t) s"
  let ?ids = "map (\<lambda>j. devs ! (j mod length devs)) [0 ..< length ?heads]"
  have h: "heads_to_probe w' (head_checkpoint_dir ft t) s = ?heads"
    by (rule heads_to_probe_entries [OF e])
  show ?thesis
  proof (cases "?heads = [] \<or> devs = []")
    case True
    then show ?thesis
    proof
      assume "?heads = []"
      then show ?thesis using h by (simp add: probe_heads_no_heads)
    next
      assume d: "devs = []"
      show ?thesis
      proof (cases "?heads = []")
        case True
        then show ?thesis using h by (simp add: probe_heads_no_heads)
      next
        case False
        then show ?thesis using h d by (simp add: probe_heads_no_devices)
      qed
    qed
  next
    case False
    have "launch_all w' s ft t mpg devs (n_class w (lower (Experiment_name t)))
            (head_checkpoint_dir ft t) ?ids 0 ?heads [] =
          launch_all w s ft t mpg devs (n_class w (lower (Experiment_name t)))
            (head_checkpoint_dir ft t) ?ids 0 ?heads []"
      by (rule launch_all_cong [OF e refl _ filling_start]) (use agree in simp)
    then show ?thesis
      using False
        probe_heads_unfold [OF h _ _ refl, of devs mpg]
        probe_heads_unfold [OF refl _ _ refl, of w ft t s devs mpg]
      by (simp add: nc)
  qed
qed

lemma probe_heads_capped:
  assumes "0 < nat (int (length devs) * mpg)"
  shows "capped (nat (int (length devs) * mpg)) [] (fst (probe_heads w s ft t mpg devs))
       \<and> drained [] (fst (probe_heads w s ft t mpg devs))"
proof -
  let ?B = "nat (int (length devs) * mpg)"
  let ?heads = "heads_to_probe w (head_checkpoint_dir ft t) s"
  let ?ids = "map (\<lambda>j. devs ! (j mod length devs)) [0 ..< length ?heads]"
  let ?r = "launch_all w s ft t mpg devs (n_class w (lower (Experiment_name t)))
              (head_checkpoint_dir ft t) ?ids 0 ?heads []"
  from assms have devs: "devs \<noteq> []" by (cases devs) auto
  show ?thesis
  proof (cases "?heads = []")
    case True
    then show ?thesis by (simp add: probe_heads_no_heads)
  next
    case False
    obtain xs where xs: "Print ''heads to probe:'' # fst (print_heads s ?ids 0 ?heads) @
                           [Print [CHR 0x0A]] = map Print xs"
      using print_heads_prints [OF refl, where s = s and devs = devs and heads = "?heads"]
    by (elim exE)
    note u = probe_heads_unfold [OF refl False devs refl, of mpg, unfolded xs]
    have tr: "capped ?B [] (fst ?r)" "drained [] (fst ?r)"
        "\<And>Pf. snd ?r = Inr Pf \<Longrightarrow> outstanding [] (fst ?r) = map handle Pf"
        "\<And>Pf. snd ?r = Inr Pf \<Longrightarrow> filling ?B (length ?heads) Pf"
      using launch_all_trace [OF refl filling_start, of devs mpg w s ft t
              "n_class w (lower (Experiment_name t))" "head_checkpoint_dir ft t" ?ids ?heads]
            assms
      by simp_all
    show ?thesis
    proof (cases ?r)
      case (Pair T res)
      show ?thesis
      proof (cases res)
        case (Inl e)
        with Pair tr(1,2) show ?thesis
          unfolding u by (simp add: capped_append drained_append)
      next
        case (Inr Pf)
        with Pair tr(3) [of Pf] have o: "outstanding [] T = map handle Pf" by simp
        from Inr Pair tr(4) [of Pf] have "length Pf = length ?heads mod ?B"
          by (simp add: filling_length)
        with assms have "length Pf \<le> ?B"
          by (metis less_imp_le_nat mod_less_divisor)
        with Pair Inr tr(1,2) o show ?thesis
          unfolding u by (simp add: capped_append drained_append outstanding_append)
      qed
    qed
  qed
qed

lemma probe_heads_success:
  assumes ok: "snd (probe_heads w s ft t mpg devs) = Inr ()"
      and heads: "heads_to_probe w (head_checkpoint_dir ft t) s \<noteq> []"
  shows "\<exists>T ps. fst (probe_heads w s ft t mpg devs) = T @ [Communicate_all ps]
           \<and> map pid ps =
               [length (heads_to_probe w (head_checkpoint_dir ft t) s) -
                length (heads_to_probe w (head_checkpoint_dir ft t) s) mod
                  nat (int (length devs) * mpg)
                ..< length (heads_to_probe w (head_checkpoint_dir ft t) s)]
           \<and> map pid (launched (fst (probe_heads w s ft t mpg devs))) =
               [0 ..< length (heads_to_probe w (head_checkpoint_dir ft t) s)]
           \<and> length (batch_joins (fst (probe_heads w s ft t mpg devs))) =
               length (heads_to_probe w (head_checkpoint_dir ft t) s) div
                 nat (int (length devs) * mpg) +
               (if ps = [] then 0 else 1)"
proof -
  let ?B = "nat (int (length devs) * mpg)"
  let ?heads = "heads_to_probe w (head_checkpoint_dir ft t) s"
  let ?ids = "map (\<lambda>j. devs ! (j mod length devs)) [0 ..< length ?heads]"
  let ?r = "launch_all w s ft t mpg devs (n_class w (lower (Experiment_name t)))
              (head_checkpoint_dir ft t) ?ids 0 ?heads []"
  have devs: "devs \<noteq> []"
  proof
    assume "devs = []"
    with heads ok show False by (simp add: probe_heads_no_devices)
  qed
  obtain xs where xs: "Print ''heads to probe:'' # fst (print_heads s ?ids 0 ?heads) @
                         [Print [CHR 0x0A]] = map Print xs"
    using print_heads_prints [OF refl, where s = s and devs = devs and heads = "?heads"]
    by (elim exE)
  note u = probe_heads_unfold [OF refl heads devs refl, of mpg, unfolded xs]
  obtain T res where r: "?r = (T, res)" by (cases ?r) auto
  with ok u obtain Pf where res: "res = Inr Pf" by (cases res) auto
  have tr: "filling ?B (length ?heads) Pf" "map pid (launched T) = [0 ..< length ?heads]"
      "length (batch_joins T) = length ?heads div ?B"
    using launch_all_trace [OF refl filling_start, of devs mpg w s ft t
            "n_class w (lower (Experiment_name t))" "head_checkpoint_dir ft t" ?ids ?heads]
          r res
    by simp_all
  have p: "map pid (map handle Pf) = [length ?heads - length ?heads mod ?B ..< length ?heads]"
    using tr(1) by (simp add: filling_def comp_def)
  show ?thesis
    apply (rule exI [of _ "map Print xs @ T"])
    apply (rule exI [of _ "map handle Pf"])
    using r res tr(2,3) p unfolding u
    apply (simp add: launched_append batch_joins_append)
    done
qed

lemma ceiling_div_nat:
  assumes "0 < B"
  shows "\<lceil>real n / real B\<rceil> = int (n div B + (if n mod B = 0 then 0 else 1))"
proof -
  have "\<lceil>real n / real B\<rceil> = \<lceil>(of_int (int n) :: real) / of_int (int B)\<rceil>" by simp
  also have "\<dots> = - (- int n div int B)" by (rule ceiling_divide_eq_div)
  also have "- int n div int B =
               (if int n mod int B = 0 then - (int n div int B) else - (int n div int B) - 1)"
    using assms by (simp add: zdiv_zminus1_eq_if)
  also have "int n mod int B = int (n mod B)" by (simp add: zmod_int)
  also have "int n div int B = int (n div B)" by (simp add: zdiv_int)
  finally show ?thesis by simp
qed

lemma probe_heads_ok:
  assumes ck: "s = BASE \<or> finetuned_checkpoint w ft s \<noteq> Inl IndexError"
      and devs: "devs \<noteq> []"
      and ok: "\<forall>q < nat (int (length devs) * mpg) *
                     (length (heads_to_probe w (head_checkpoint_dir ft t) s) div
                      nat (int (length devs) * mpg)). exit_code w q \<noteq> 1"
  shows "snd (probe_heads w s ft t mpg devs) = Inr ()"
proof (cases "heads_to_probe w (head_checkpoint_dir ft t) s = []")
  case True
  then show ?thesis by (simp add: probe_heads_no_heads)
next
  case False
  let ?heads = "heads_to_probe w (head_checkpoint_dir ft t) s"
  let ?ids = "map (\<lambda>j. devs ! (j mod length devs)) [0 ..< length ?heads]"
  obtain Pf where "snd (launch_all w s ft t mpg devs (n_class w (lower (Experiment_name t)))
              (head_checkpoint_dir ft t) ?ids 0 ?heads []) = Inr Pf"
    using launch_all_ok [OF refl filling_start _ ck, where hs = "?heads" and ids = "?ids"
            and devs = devs and mpg = mpg and t = t
            and n = "n_class w (lower (Experiment_name t))" and cd = "head_checkpoint_dir ft t"]
          ok
    by auto
  then show ?thesis
    unfolding probe_heads_unfold [OF refl False devs refl]
    by (auto split: prod.splits sum.splits)
qed

lemma heads_fresh:
  "entries w = [] \<Longrightarrow> heads_to_probe w cd s = List.product [0..<12] [0..<12]"
  by (simp add: heads_to_probe_def rglob_def)

lemma grid_length: "length (List.product [0..<12] [0..<12 :: nat]) = 144"
  by simp

lemma grid_first: "\<exists>rest. List.product [0..<12] [0..<12 :: nat] = (0, 0) # rest"
proof -
  have "[0..<12] = (0 :: nat) # [1..<12]" by (simp add: upt_conv_Cons)
  then show ?thesis by simp
qed

lemma launched_outstanding:
  "launched T \<noteq> [] \<Longrightarrow> \<exists>k. outstanding rs (take k T) \<noteq> []"
proof (induction rs T rule: outstanding.induct)
  case (1 rs)
  then show ?case by simp
next
  case (2 rs p es)
  have "outstanding rs (take 1 (Popen p # es)) \<noteq> []" by simp
  then show ?case by blast
next
  case (3 rs ps es)
  then obtain k where "outstanding (filter (\<lambda>r. r \<notin> set ps) rs) (take k es) \<noteq> []" by auto
  then have "outstanding rs (take (Suc k) (Communicate_all ps # es)) \<noteq> []" by simp
  then show ?case by blast
next
  case (4 rs s es)
  then obtain k where "outstanding rs (take k es) \<noteq> []" by auto
  then have "outstanding rs (take (Suc k) (Print s # es)) \<noteq> []" by simp
  then show ?case by blast
next
  case (5 rs d es)
  then obtain k where "outstanding rs (take k es) \<noteq> []" by auto
  then have "outstanding rs (take (Suc k) (Mkdir d # es)) \<noteq> []" by simp
  then show ?case by blast
qed

lemma upt_mod_Nil: "[n - n mod B ..< n] = [] \<longleftrightarrow> n mod B = (0 :: nat)"
proof -
  define m where "m = n mod B"
  have "m \<le> n" unfolding m_def by simp
  then have "[n - m ..< n] = [] \<longleftrightarrow> m = 0" by auto
  then show ?thesis unfolding m_def .
qed

lemma fresh_entries [simp]: "entries (fresh_world c) = []"
  by (simp add: fresh_world_def)

lemma fresh_exit_code [simp]: "exit_code (fresh_world c) q = c"
  by (simp add: fresh_world_def)

lemma fresh_heads:
  "length (heads_to_probe (fresh_world c) cd s) = 144"
  by (simp add: heads_fresh)

lemma wait_batch_first_fails:
  assumes "exit_code w i = 1"
  shows "snd (wait_batch w s [(hl, hi, did,
                \<lparr>args = c, pid = i, stdout_devnull = True, stderr_pipe = True\<rparr>)]) =
           Inl ValueError"
  using assms
  by (simp add: wait_batch_def communicate_def returncode_def item_def Let_def)

lemma launch_all_first_fails:
  assumes did: "item ids 0 = Inr did"
      and c: "head_template w s ft t n (dir_for_head cd s hl hi) did hl hi = Inr c"
      and one: "int (length devs) * mpg = 1"
      and ec: "exit_code w 0 = 1"
  shows "\<exists>T. launch_all w s ft t mpg devs n cd ids 0 ((hl, hi) # rest) [] = (T, Inl ValueError)
            \<and> length (batch_joins T) = 1"
proof -
  let ?p = "\<lparr>args = c, pid = 0, stdout_devnull = True, stderr_pipe = True\<rparr>"
  obtain xs where xs: "fst (wait_batch w s [(hl, hi, did, ?p)]) =
                         Communicate_all (map handle [(hl, hi, did, ?p)]) # map Print xs"
    using wait_batch_shape by blast
  have f: "snd (wait_batch w s [(hl, hi, did, ?p)]) = Inl ValueError"
    by (rule wait_batch_first_fails [OF ec])
  have wb: "wait_batch w s [(hl, hi, did, ?p)] =
              (Communicate_all [?p] # map Print xs, Inl ValueError)"
    using xs f by (cases "wait_batch w s [(hl, hi, did, ?p)]") simp
  show ?thesis
    unfolding launch_all_step [OF did c]
    using wb one by (simp del: launch_all.simps)
qed

lemma probe_heads_first_fails:
  assumes heads: "heads_to_probe w (head_checkpoint_dir ft t) BASE = (hl, hi) # rest"
      and devs: "devs \<noteq> []"
      and one: "int (length devs) * mpg = 1"
      and ec: "exit_code w 0 = 1"
  shows "snd (probe_heads w BASE ft t mpg devs) = Inl ValueError
       \<and> length (batch_joins (fst (probe_heads w BASE ft t mpg devs))) = 1"
proof -
  let ?heads = "(hl, hi) # rest"
  let ?ids = "map (\<lambda>j. devs ! (j mod length devs)) [0 ..< length ?heads]"
  have did: "item ?ids 0 = Inr (devs ! 0)"
    using devs by (simp add: item_def upt_conv_Cons del: upt_Suc)
  obtain c where c: "head_template w BASE ft t (n_class w (lower (Experiment_name t)))
                       (dir_for_head (head_checkpoint_dir ft t) BASE hl hi) (devs ! 0) hl hi =
                     Inr c"
    using head_template_ok [of BASE] by blast
  obtain T where T: "launch_all w BASE ft t mpg devs (n_class w (lower (Experiment_name t)))
                       (head_checkpoint_dir ft t) ?ids 0 ?heads [] = (T, Inl ValueError)"
      and j: "length (batch_joins T) = 1"
    using launch_all_first_fails [OF did c one ec] by blast
  obtain ys where ys: "Print ''heads to probe:'' # fst (print_heads BASE ?ids 0 ?heads) @
                         [Print [CHR 0x0A]] = map Print ys"
    using print_heads_prints [OF refl, where s = BASE and devs = devs and heads = "?heads"]
    by (elim exE)
  have ne: "?heads \<noteq> []" by simp
  have "probe_heads w BASE ft t mpg devs = (map Print ys @ T, Inl ValueError)"
    unfolding probe_heads_unfold [OF heads ne devs refl] ys T by simp
  with j show ?thesis by (simp add: batch_joins_append)
qed

subsection \<open>Batches\<close>

text \<open>
  Claim C3, as stated, fails in two ways. With \<^verbatim>\<open>models_per_gpu = 0\<close> the batch is never full:
  processes are outstanding although the bound \<^verbatim>\<open>len(devices) * models_per_gpu\<close> is 0. And
  when the first batch holds a process that exits with 1, the run is aborted after one
  batch join, whatever the number of pending heads.
\<close>

theorem batches_counterexample:
  "\<not> (\<forall>k. length (outstanding []
               (take k (fst (probe_heads (fresh_world 0) BASE (Experiment ''NLI'')
                               (Experiment ''POS'') 0 [0])))) \<le> length [0 :: int] * nat 0)
   \<and> snd (probe_heads (fresh_world 1) BASE (Experiment ''NLI'') (Experiment ''POS'') 1 [0]) =
       Inl ValueError
   \<and> length (batch_joins (fst (probe_heads (fresh_world 1) BASE (Experiment ''NLI'')
                                  (Experiment ''POS'') 1 [0]))) = 1
   \<and> \<lceil>real (length (heads_to_probe (fresh_world 1)
                      (head_checkpoint_dir (Experiment ''NLI'') (Experiment ''POS'')) BASE)) /
       real (length [0 :: int] * nat 1)\<rceil> = 144"
proof -
  let ?NLI = "Experiment ''NLI''" and ?POS = "Experiment ''POS''"
  let ?cd = "head_checkpoint_dir ?NLI ?POS"
  \<comment> \<open>no batch limit at all when \<open>models_per_gpu\<close> is 0\<close>
  let ?r0 = "probe_heads (fresh_world 0) BASE ?NLI ?POS 0 [0]"
  have ne0: "heads_to_probe (fresh_world 0) ?cd BASE \<noteq> []"
    using fresh_heads [of 0 ?cd BASE] by auto
  have ok0: "snd ?r0 = Inr ()"
    by (rule probe_heads_ok) simp_all
  from probe_heads_success [OF ok0 ne0]
  have "map pid (launched (fst ?r0)) = [0 ..< 144]"
    by (auto simp: fresh_heads)
  from arg_cong [OF this, of length] have "length (launched (fst ?r0)) = 144" by simp
  then have "launched (fst ?r0) \<noteq> []" by auto
  then obtain k where "outstanding [] (take k (fst ?r0)) \<noteq> []"
    using launched_outstanding by blast
  then have a: "\<not> (\<forall>k. length (outstanding [] (take k (fst ?r0))) \<le> length [0 :: int] * nat 0)"
    by auto
  \<comment> \<open>the first process fails: one batch is joined, out of 144\<close>
  let ?w = "fresh_world 1"
  let ?r1 = "probe_heads ?w BASE ?NLI ?POS 1 [0]"
  let ?heads = "heads_to_probe ?w ?cd BASE"
  obtain rest where heads: "?heads = (0, 0) # rest"
    using grid_first by (auto simp: heads_fresh)
  have b: "snd ?r1 = Inl ValueError \<and> length (batch_joins (fst ?r1)) = 1"
    by (rule probe_heads_first_fails [OF heads]) simp_all
  have d: "\<lceil>real (length ?heads) / real (length [0 :: int] * nat 1)\<rceil> = 144"
    by (simp add: fresh_heads)
  from a b d show ?thesis by blast
qed

text \<open>
  Claim C3, amended. For a device list that is not empty and \<^verbatim>\<open>models_per_gpu\<close> at least 1:
  at every point of \<^verbatim>\<open>probe_heads\<close> at most \<^verbatim>\<open>len(devices) * models_per_gpu\<close> subprocesses
  have been started and not yet waited for; every wait leaves no subprocess outstanding, so
  a batch is joined as a whole before the next process is started; and a run that ends
  without an error has waited for exactly \<^verbatim>\<open>ceil(n / (len(devices) * models_per_gpu))\<close>
  batches that are not empty, \<open>n\<close> being the number of pending heads.
\<close>

theorem batches_bounded_and_joined:
  assumes "devices \<noteq> []" "1 \<le> models_per_gpu"
  shows "(\<forall>k. length (outstanding []
                  (take k (fst (probe_heads w s ft t models_per_gpu devices))))
              \<le> length devices * nat models_per_gpu)
       \<and> (\<forall>k ps. k < length (fst (probe_heads w s ft t models_per_gpu devices)) \<and>
                  fst (probe_heads w s ft t models_per_gpu devices) ! k = Communicate_all ps \<longrightarrow>
                  outstanding []
                    (take (Suc k) (fst (probe_heads w s ft t models_per_gpu devices))) = [])
       \<and> (snd (probe_heads w s ft t models_per_gpu devices) = Inr () \<longrightarrow>
            int (length (batch_joins (fst (probe_heads w s ft t models_per_gpu devices)))) =
              \<lceil>real (length (heads_to_probe w (head_checkpoint_dir ft t) s)) /
               real (length devices * nat models_per_gpu)\<rceil>)"
proof -
  let ?B = "nat (int (length devices) * models_per_gpu)"
  let ?r = "probe_heads w s ft t models_per_gpu devices"
  let ?n = "length (heads_to_probe w (head_checkpoint_dir ft t) s)"
  have B: "?B = length devices * nat models_per_gpu"
    by (simp add: nat_mult_distrib)
  have pos: "0 < ?B" using assms unfolding B by (cases devices) auto
  from probe_heads_capped [OF pos, of w s ft t]
  have c: "capped ?B [] (fst ?r)" and d: "drained [] (fst ?r)" by simp_all
  have 1: "\<forall>k. length (outstanding [] (take k (fst ?r))) \<le> length devices * nat models_per_gpu"
    using c unfolding capped_take B by blast
  have 2: "\<forall>k ps. k < length (fst ?r) \<and> fst ?r ! k = Communicate_all ps \<longrightarrow>
             outstanding [] (take (Suc k) (fst ?r)) = []"
    using drained_nth [OF d] by blast
  have 3: "int (length (batch_joins (fst ?r))) = \<lceil>real ?n / real (length devices * nat models_per_gpu)\<rceil>"
    if ok: "snd ?r = Inr ()"
  proof (cases "heads_to_probe w (head_checkpoint_dir ft t) s = []")
    case True
    then show ?thesis by (simp add: probe_heads_no_heads)
  next
    case False
    from probe_heads_success [OF ok False]
    obtain T ps where T: "fst ?r = T @ [Communicate_all ps]"
        and ps: "map pid ps = [?n - ?n mod ?B ..< ?n]"
        and j: "length (batch_joins (fst ?r)) = ?n div ?B + (if ps = [] then 0 else 1)"
      by blast
    have "ps = [] \<longleftrightarrow> map pid ps = []" by simp
    also have "\<dots> \<longleftrightarrow> ?n mod ?B = 0" unfolding ps
      by (rule upt_mod_Nil)
    finally have "length (batch_joins (fst ?r)) = ?n div ?B + (if ?n mod ?B = 0 then 0 else 1)"
      using j by simp
    then show ?thesis
      using ceiling_div_nat [OF pos, of ?n] unfolding B by simp
  qed
  from 1 2 3 show ?thesis by blast
qed

theorem batches_bounded_and_joined_witness:
  "[0, 1 :: int] \<noteq> [] \<and> (1 :: int) \<le> 2
   \<and> (\<forall>k. length (outstanding []
              (take k (fst (probe_heads (fresh_world 0) BASE (Experiment ''NLI'')
                              (Experiment ''POS'') 2 [0, 1])))) \<le> 4)
   \<and> length (batch_joins (fst (probe_heads (fresh_world 0) BASE (Experiment ''NLI'')
                                  (Experiment ''POS'') 2 [0, 1]))) = 36"
proof -
  let ?r = "probe_heads (fresh_world 0) BASE (Experiment ''NLI'') (Experiment ''POS'') 2 [0, 1]"
  have h1: "[0, 1 :: int] \<noteq> []" and h2: "(1 :: int) \<le> 2" by simp_all
  have ok: "snd ?r = Inr ()"
    by (rule probe_heads_ok) simp_all
  note t = batches_bounded_and_joined [OF h1 h2, of "fresh_world 0" BASE "Experiment ''NLI''"
             "Experiment ''POS''"]
  from t have "\<forall>k. length (outstanding [] (take k (fst ?r))) \<le> 4" by simp
  moreover from t ok have "int (length (batch_joins (fst ?r))) = \<lceil>real 144 / real 4\<rceil>"
    by (simp add: fresh_heads)
  then have "length (batch_joins (fst ?r)) = 36" by simp
  ultimately show ?thesis by simp
qed

subsection \<open>Exit statuses\<close>

lemma heads_to_probe_update [simp]:
  "heads_to_probe (w\<lparr>exit_code := ec\<rparr>) cd s = heads_to_probe w cd s"
  "heads_to_probe (w\<lparr>stderr_text := se\<rparr>) cd s = heads_to_probe w cd s"
  by (simp_all add: heads_to_probe_def)

lemma not_dvd_batch:
  assumes "\<not> (int (length devs) * mpg) dvd int n"
  shows "n mod nat (int (length devs) * mpg) \<noteq> 0"
proof
  assume m: "n mod nat (int (length devs) * mpg) = 0"
  show False
  proof (cases "0 \<le> int (length devs) * mpg")
    case True
    from m have "nat (int (length devs) * mpg) dvd n" by auto
    then have "int (nat (int (length devs) * mpg)) dvd int n" by (simp only: int_dvd_int_iff)
    with True assms show False by simp
  next
    case False
    then have "nat (int (length devs) * mpg) = 0" by simp
    with m have "n = 0" by simp
    with assms show False by simp
  qed
qed

lemma fresh_stderr [simp]: "stderr_text (fresh_world c) q = ''boom''"
  by (simp add: fresh_world_def)

lemma last_fails_fresh:
  "(fresh_world 0)\<lparr>exit_code := (\<lambda>p. if p = 143 then 1 else 0), stderr_text := (\<lambda>p. ''boom'')\<rparr> =
   last_fails_world"
  by (simp add: fresh_world_def last_fails_world_def)

lemma fresh_n_class: "n_class (fresh_world c) = (\<lambda>t. 17)"
  by (simp add: fresh_world_def)

text \<open>
  Claim C5. Changing the exit status and the error output of the processes that are not in
  a full batch (those numbered from \<open>B * (n div B)\<close> on, \<open>B\<close> being
  \<^verbatim>\<open>len(devices) * models_per_gpu\<close> and \<open>n\<close> the number of pending heads) changes neither the
  trace nor the result of \<^verbatim>\<open>probe_heads\<close>: their statuses are never inspected, so such a
  process exiting with 1 neither aborts the run nor prints anything. When \<open>n\<close> is not a
  multiple of \<open>B\<close>, a run that ends without an error ends by waiting for exactly these
  processes, and there is at least one.
\<close>

theorem final_partial_batch_unchecked:
  assumes "\<forall>q < nat (int (length devices) * models_per_gpu) *
                  (length (heads_to_probe w (head_checkpoint_dir ft t) s) div
                   nat (int (length devices) * models_per_gpu)).
             ec q = exit_code w q \<and> se q = stderr_text w q"
  shows "probe_heads (w\<lparr>exit_code := ec, stderr_text := se\<rparr>) s ft t models_per_gpu devices =
           probe_heads w s ft t models_per_gpu devices
       \<and> (snd (probe_heads w s ft t models_per_gpu devices) = Inr () \<and>
          \<not> (int (length devices) * models_per_gpu) dvd
              int (length (heads_to_probe w (head_checkpoint_dir ft t) s)) \<longrightarrow>
          (\<exists>T ps. fst (probe_heads w s ft t models_per_gpu devices) = T @ [Communicate_all ps]
                 \<and> ps \<noteq> []
                 \<and> map pid ps =
                     [nat (int (length devices) * models_per_gpu) *
                        (length (heads_to_probe w (head_checkpoint_dir ft t) s) div
                         nat (int (length devices) * models_per_gpu))
                      ..< length (heads_to_probe w (head_checkpoint_dir ft t) s)]))"
proof -
  let ?B = "nat (int (length devices) * models_per_gpu)"
  let ?n = "length (heads_to_probe w (head_checkpoint_dir ft t) s)"
  let ?r = "probe_heads w s ft t models_per_gpu devices"
  have 1: "probe_heads (w\<lparr>exit_code := ec, stderr_text := se\<rparr>) s ft t models_per_gpu devices = ?r"
    by (rule probe_heads_cong) (use assms in simp_all)
  have 2: "\<exists>T ps. fst ?r = T @ [Communicate_all ps] \<and> ps \<noteq> [] \<and>
                  map pid ps = [?B * (?n div ?B) ..< ?n]"
    if ok: "snd ?r = Inr ()" and nd: "\<not> (int (length devices) * models_per_gpu) dvd int ?n"
  proof -
    from nd have m: "?n mod ?B \<noteq> 0" by (rule not_dvd_batch)
    then have ne: "heads_to_probe w (head_checkpoint_dir ft t) s \<noteq> []" by auto
    from probe_heads_success [OF ok ne]
    obtain T ps where T: "fst ?r = T @ [Communicate_all ps]"
        and ps: "map pid ps = [?n - ?n mod ?B ..< ?n]"
      by blast
    have "?n - ?n mod ?B = ?B * (?n div ?B)"
      by (simp add: minus_mod_eq_mult_div)
    with ps have ps': "map pid ps = [?B * (?n div ?B) ..< ?n]" by simp
    have "map pid ps \<noteq> []" unfolding ps using m by (simp only: upt_mod_Nil not_False_eq_True)
    then have "ps \<noteq> []" by auto
    with T ps' show ?thesis by blast
  qed
  from 1 2 show ?thesis by blast
qed

theorem final_partial_batch_unchecked_witness:
  "probe_heads last_fails_world BASE (Experiment ''NLI'') (Experiment ''POS'') 100 [0] =
     probe_heads (fresh_world 0) BASE (Experiment ''NLI'') (Experiment ''POS'') 100 [0]
   \<and> exit_code last_fails_world 143 = 1
   \<and> snd (probe_heads (fresh_world 0) BASE (Experiment ''NLI'') (Experiment ''POS'') 100 [0]) =
       Inr ()
   \<and> (\<exists>T ps. fst (probe_heads (fresh_world 0) BASE (Experiment ''NLI'') (Experiment ''POS'')
                      100 [0]) = T @ [Communicate_all ps]
            \<and> ps \<noteq> [] \<and> map pid ps = [100 ..< 144])"
proof -
  let ?r = "probe_heads (fresh_world 0) BASE (Experiment ''NLI'') (Experiment ''POS'') 100 [0]"
  have h: "\<forall>q < nat (int (length [0 :: int]) * 100) *
                  (length (heads_to_probe (fresh_world 0)
                     (head_checkpoint_dir (Experiment ''NLI'') (Experiment ''POS'')) BASE) div
                   nat (int (length [0 :: int]) * 100)).
             (if q = 143 then 1 else 0) = exit_code (fresh_world 0) q \<and>
             ''boom'' = stderr_text (fresh_world 0) q"
    by (simp add: fresh_heads)
  have ok: "snd ?r = Inr ()"
    by (rule probe_heads_ok) simp_all
  have nd: "\<not> (int (length [0 :: int]) * 100) dvd
              int (length (heads_to_probe (fresh_world 0)
                     (head_checkpoint_dir (Experiment ''NLI'') (Experiment ''POS'')) BASE))"
    by (simp add: fresh_heads)
  have e: "exit_code last_fails_world 143 = 1" by (simp add: last_fails_world_def)
  from final_partial_batch_unchecked [OF h] ok nd e
  show ?thesis
    by (simp add: last_fails_fresh fresh_heads)
qed

text \<open>
  Claim C4 does not hold of the code. On an empty checkpoint tree with two devices and five
  models per device, the 144 pending heads make 14 full batches and a last batch of the
  processes 140 to 143. When process 143 exits with 1, it is started and waited for, and the
  run returns normally; the run is the very run in which every process exits with 0, so no
  error output is printed and no error is raised.
\<close>

theorem final_batch_failure_unreported:
  "exit_code last_fails_world 143 = 1
   \<and> map pid (launched (fst (probe_heads last_fails_world BASE (Experiment ''NLI'')
                                (Experiment ''POS'') 5 [0, 1]))) = [0 ..< 144]
   \<and> snd (probe_heads last_fails_world BASE (Experiment ''NLI'') (Experiment ''POS'') 5 [0, 1]) =
       Inr ()
   \<and> probe_heads last_fails_world BASE (Experiment ''NLI'') (Experiment ''POS'') 5 [0, 1] =
       probe_heads (fresh_world 0) BASE (Experiment ''NLI'') (Experiment ''POS'') 5 [0, 1]"
proof -
  let ?NLI = "Experiment ''NLI''" and ?POS = "Experiment ''POS''"
  let ?r = "probe_heads (fresh_world 0) BASE ?NLI ?POS 5 [0, 1]"
  have e: "exit_code last_fails_world 143 = 1" by (simp add: last_fails_world_def)
  have same: "probe_heads last_fails_world BASE ?NLI ?POS 5 [0, 1] = ?r"
    by (rule probe_heads_cong) (simp_all add: last_fails_world_def fresh_heads fresh_n_class)
  have ok: "snd ?r = Inr ()"
    by (rule probe_heads_ok) simp_all
  have ne: "heads_to_probe (fresh_world 0) (head_checkpoint_dir ?NLI ?POS) BASE \<noteq> []"
    using fresh_heads [of 0 "head_checkpoint_dir ?NLI ?POS" BASE] by auto
  from probe_heads_success [OF ok ne]
  have "map pid (launched (fst ?r)) = [0 ..< 144]"
    by (auto simp: fresh_heads)
  with e ok same show ?thesis by simp
qed

subsection \<open>The finetuned checkpoint\<close>

lemma launched_single_mkdir [simp]: "launched [Mkdir d] = []"
  by simp

lemma probe_heads_no_checkpoint:
  assumes s: "s \<noteq> BASE" and ck: "finetuned_checkpoint w ft s = Inl IndexError"
  shows "launched (fst (probe_heads w s ft t mpg devs)) = []
       \<and> (heads_to_probe w (head_checkpoint_dir ft t) s \<noteq> [] \<and> devs \<noteq> [] \<longrightarrow>
            snd (probe_heads w s ft t mpg devs) = Inl IndexError)"
proof (cases "heads_to_probe w (head_checkpoint_dir ft t) s")
  case Nil
  then show ?thesis by (simp add: probe_heads_no_heads)
next
  case (Cons hp rest)
  obtain hl hi where hp: "hp = (hl, hi)" by (cases hp) auto
  show ?thesis
  proof (cases "devs = []")
    case True
    with Cons show ?thesis by (simp add: probe_heads_no_devices)
  next
    case False
    let ?heads = "(hl, hi) # rest"
    let ?ids = "map (\<lambda>j. devs ! (j mod length devs)) [0 ..< length ?heads]"
    have heads: "heads_to_probe w (head_checkpoint_dir ft t) s = ?heads"
      using Cons hp by simp
    have ne: "?heads \<noteq> []" by simp
    have did: "item ?ids 0 = Inr (devs ! 0)"
      using False by (simp add: item_def upt_conv_Cons del: upt_Suc)
    have la: "launch_all w s ft t mpg devs (n_class w (lower (Experiment_name t)))
                (head_checkpoint_dir ft t) ?ids 0 ?heads [] =
              ([Mkdir (dir_for_head (head_checkpoint_dir ft t) s hl hi)], Inl IndexError)"
      by (rule launch_all_template_fails [OF did head_template_fails [OF s ck]])
    obtain ys where ys: "Print ''heads to probe:'' # fst (print_heads s ?ids 0 ?heads) @
                           [Print [CHR 0x0A]] = map Print ys"
      using print_heads_prints [OF refl, where s = s and devs = devs and heads = "?heads"]
      by (elim exE)
    have "probe_heads w s ft t mpg devs =
            (map Print ys @ [Mkdir (dir_for_head (head_checkpoint_dir ft t) s hl hi)],
             Inl IndexError)"
      unfolding probe_heads_unfold [OF heads ne False refl] ys la by simp
    then show ?thesis by (simp add: launched_append)
  qed
qed

lemma head_template_resume:
  assumes "s \<noteq> BASE" "finetuned_checkpoint w ft s = Inr c"
  shows "\<exists>pre post. head_template w s ft t n cdh did hl hi =
              Inr (pre @ ''--resume --model_ckpt '' @ str_path c @ '' '' @ post)"
proof (intro exI)
  show "head_template w s ft t n cdh did hl hi =
          Inr ((''python train.py --local_rank -1 '' @ ''--dataset_name '' @
                Experiment_name t @ ''/cross '') @
               ''--resume --model_ckpt '' @ str_path c @ '' '' @
               (''--epochs 2 --output_dir '' @ str_path cdh @ '' '' @
                ''--init_checkpoint bert-base-multilingual-cased '' @ ''--devices '' @
                str_int did @ '' '' @ ''--head_probe --head_probe_layer '' @ str_nat hl @
                '' --head_probe_idx '' @ str_nat hi @ '' --head_probe_n_classes '' @
                str_int n))"
    using assms by (simp add: head_template_eq)
qed

lemma model_template_resume:
  assumes "setting \<noteq> BASE" "finetuned_checkpoint w ft fs = Inr c"
  shows "model_template w setting fs ft ds dt devs n cd =
           Inr ((''python train.py --local_rank -1 '' @ ''--dataset_name '' @
                 Experiment_name dt @ ''/'' @ lower (LingualSetting_name ds) @ '' '') @
                ''--resume --model_ckpt '' @ str_path c @ '' '' @
                (''--epochs 2 --output_dir '' @ str_path cd @ '' '' @
                 ''--init_checkpoint bert-base-multilingual-cased '' @ ''--devices '' @
                 devs @ '' '' @ ''--model_probe --model_probe_n_classes '' @ str_int n))"
  using assms by (simp add: model_template_eq)

lemma model_template_base:
  "model_template w BASE fs ft ds dt devs n cd =
           Inr ((''python train.py --local_rank -1 '' @ ''--dataset_name '' @
                 Experiment_name dt @ ''/'' @ lower (LingualSetting_name ds) @ '' '') @
                (''--epochs 2 --output_dir '' @ str_path cd @ '' '' @
                 ''--init_checkpoint bert-base-multilingual-cased '' @ ''--devices '' @
                 devs @ '' '' @ ''--model_probe --model_probe_n_classes '' @ str_int n))"
  by (simp add: model_template_eq)

lemma finetuned_world_checkpoints:
  "rglob finetuned_world
     (Path (''checkpoint/'' @ Experiment_name (Experiment ''NLI'') @ ''_'' @
            lower (LingualSetting_name CROSS))) ''model_5*.pt'' =
   [''checkpoint'', ''NLI_cross'', ''model_5_1.pt''] #
   [[''checkpoint'', ''NLI_cross'', ''model_5_2.pt'']]"
  by (simp add: eval_defs strict_prefix_def)

lemma probe_model_launches:
  assumes "\<not> is_dir w (model_checkpoint_dir fs ft ds dt)"
      and "model_template w g fs ft ds dt (join '' '' (map str_int devices))
             (n_class w (lower (Experiment_name dt))) (model_checkpoint_dir fs ft ds dt) = Inr c"
  shows "probe_model w g fs ft ds dt devices =
           ([Print (task_info_str g ft ds dt),
             Popen \<lparr>args = c, pid = 0, stdout_devnull = False, stderr_pipe = False\<rparr>,
             Communicate_all [\<lparr>args = c, pid = 0, stdout_devnull = False, stderr_pipe = False\<rparr>]],
            Inr ())"
  using assms by (simp add: probe_model_def Let_def)

text \<open>
  Claim C10. The finetuned checkpoint is the first entry of the scan for \<^verbatim>\<open>model_5*.pt\<close>
  below \<^verbatim>\<open>checkpoint/<finetuned_task>_<setting>\<close>. When the scan finds an entry, the
  selection succeeds with the first one, which both command lines then carry after
  \<^verbatim>\<open>--resume --model_ckpt\<close>. When it finds none, the selection raises \<^verbatim>\<open>IndexError\<close>; then
  \<^verbatim>\<open>probe_heads\<close> for a setting other than \<^verbatim>\<open>BASE\<close> starts no process at all and raises the error
  as soon as there is a pending head and a device, and \<^verbatim>\<open>probe_model\<close> under a module-level
  setting other than \<^verbatim>\<open>BASE\<close> raises it with an empty trace when its target directory
  does not exist.
\<close>

theorem finetuned_checkpoint_unguarded:
  "(rglob w (Path (''checkpoint/'' @ Experiment_name ft @ ''_'' @ lower (LingualSetting_name s)))
      ''model_5*.pt'' = c # cs \<longrightarrow>
      finetuned_checkpoint w ft s = Inr c
      \<and> (s \<noteq> BASE \<longrightarrow>
           (\<exists>pre post. head_template w s ft t n cdh did hl hi =
              Inr (pre @ ''--resume --model_ckpt '' @ str_path c @ '' '' @ post)))
      \<and> (setting \<noteq> BASE \<longrightarrow>
           (\<exists>pre post. model_template w setting s ft ds dt devs n cd =
              Inr (pre @ ''--resume --model_ckpt '' @ str_path c @ '' '' @ post))))
   \<and> (rglob w (Path (''checkpoint/'' @ Experiment_name ft @ ''_'' @ lower (LingualSetting_name s)))
        ''model_5*.pt'' = [] \<longrightarrow>
      finetuned_checkpoint w ft s = Inl IndexError
      \<and> (s \<noteq> BASE \<longrightarrow>
           launched (fst (probe_heads w s ft t models_per_gpu devices)) = []
           \<and> (heads_to_probe w (head_checkpoint_dir ft t) s \<noteq> [] \<and> devices \<noteq> [] \<longrightarrow>
                snd (probe_heads w s ft t models_per_gpu devices) = Inl IndexError))
      \<and> (setting \<noteq> BASE \<and> \<not> is_dir w (model_checkpoint_dir s ft ds dt) \<longrightarrow>
           probe_model w setting s ft ds dt devices' = ([], Inl IndexError)))"
proof (intro conjI impI)
  assume r: "rglob w (Path (''checkpoint/'' @ Experiment_name ft @ ''_'' @
               lower (LingualSetting_name s))) ''model_5*.pt'' = c # cs"
  then show ck: "finetuned_checkpoint w ft s = Inr c"
    by (simp add: finetuned_checkpoint_cases)
  {
    assume "s \<noteq> BASE"
    with ck show "\<exists>pre post. head_template w s ft t n cdh did hl hi =
              Inr (pre @ ''--resume --model_ckpt '' @ str_path c @ '' '' @ post)"
      using head_template_resume by blast
  }
  {
    assume "setting \<noteq> BASE"
    with ck show "\<exists>pre post. model_template w setting s ft ds dt devs n cd =
              Inr (pre @ ''--resume --model_ckpt '' @ str_path c @ '' '' @ post)"
      using model_template_resume by blast
  }
next
  assume r: "rglob w (Path (''checkpoint/'' @ Experiment_name ft @ ''_'' @
               lower (LingualSetting_name s))) ''model_5*.pt'' = []"
  then show ck: "finetuned_checkpoint w ft s = Inl IndexError"
    by (simp add: finetuned_checkpoint_cases)
  {
    assume s: "s \<noteq> BASE"
    from probe_heads_no_checkpoint [OF s ck]
    show "launched (fst (probe_heads w s ft t models_per_gpu devices)) = []" by blast
    assume "heads_to_probe w (head_checkpoint_dir ft t) s \<noteq> [] \<and> devices \<noteq> []"
    with probe_heads_no_checkpoint [OF s ck]
    show "snd (probe_heads w s ft t models_per_gpu devices) = Inl IndexError" by blast
  }
  {
    assume "setting \<noteq> BASE \<and> \<not> is_dir w (model_checkpoint_dir s ft ds dt)"
    with ck show "probe_model w setting s ft ds dt devices' = ([], Inl IndexError)"
      by (simp add: probe_model_def Let_def model_template_eq)
  }
qed

theorem finetuned_checkpoint_unguarded_witness:
  "finetuned_checkpoint finetuned_world (Experiment ''NLI'') CROSS =
     Inr [''checkpoint'', ''NLI_cross'', ''model_5_1.pt'']
   \<and> finetuned_checkpoint (fresh_world 0) (Experiment ''NLI'') CROSS = Inl IndexError
   \<and> launched (fst (probe_heads (fresh_world 0) CROSS (Experiment ''NLI'') (Experiment ''POS'')
                       2 [0, 1])) = []
   \<and> snd (probe_heads (fresh_world 0) CROSS (Experiment ''NLI'') (Experiment ''POS'') 2 [0, 1]) =
       Inl IndexError
   \<and> probe_model (fresh_world 0) CROSS CROSS (Experiment ''NLI'') MULTI (Experiment ''POS'') [0] =
       ([], Inl IndexError)"
proof -
  let ?NLI = "Experiment ''NLI''" and ?POS = "Experiment ''POS''"
  have e: "rglob (fresh_world 0) d pat = []" for d pat
    by (simp add: rglob_def)
  have ne: "heads_to_probe (fresh_world 0) (head_checkpoint_dir ?NLI ?POS) CROSS \<noteq> []"
    using fresh_heads [of 0 "head_checkpoint_dir ?NLI ?POS" CROSS] by auto
  have nd: "\<not> is_dir (fresh_world 0) (model_checkpoint_dir CROSS ?NLI MULTI ?POS)"
    by (simp add: is_dir_def)
  from finetuned_checkpoint_unguarded [of finetuned_world ?NLI CROSS
         "[''checkpoint'', ''NLI_cross'', ''model_5_1.pt'']"
         "[[''checkpoint'', ''NLI_cross'', ''model_5_2.pt'']]"]
       finetuned_world_checkpoints
  have 1: "finetuned_checkpoint finetuned_world ?NLI CROSS =
             Inr [''checkpoint'', ''NLI_cross'', ''model_5_1.pt'']"
    by blast
  from finetuned_checkpoint_unguarded [of "fresh_world 0" ?NLI CROSS _ _ ?POS _ _ _ _ _ CROSS
         MULTI ?POS _ _ 2 "[0, 1]" "[0]"] e ne nd
  have 2: "finetuned_checkpoint (fresh_world 0) ?NLI CROSS = Inl IndexError
       \<and> launched (fst (probe_heads (fresh_world 0) CROSS ?NLI ?POS 2 [0, 1])) = []
       \<and> snd (probe_heads (fresh_world 0) CROSS ?NLI ?POS 2 [0, 1]) = Inl IndexError
       \<and> probe_model (fresh_world 0) CROSS CROSS ?NLI MULTI ?POS [0] = ([], Inl IndexError)"
    by simp
  from 1 2 show ?thesis by blast
qed

text \<open>
  Claim C6. Whatever the parameter \<^verbatim>\<open>finetuned_setting\<close> is: with the module-level \<^verbatim>\<open>setting\<close>
  equal to \<^verbatim>\<open>BASE\<close> the command line of \<^verbatim>\<open>probe_model\<close> has no \<^verbatim>\<open>--resume --model_ckpt\<close> part,
  with any other module-level \<^verbatim>\<open>setting\<close> it has one, so the two calls, which have the same
  arguments, build different command lines; and the task line that is printed names the
  module-level \<^verbatim>\<open>setting\<close>.
\<close>

theorem probe_model_reads_module_setting:
  assumes "\<not> is_dir w (model_checkpoint_dir finetuned_setting ft ds dt)"
      and "setting \<noteq> BASE"
      and "finetuned_checkpoint w ft finetuned_setting = Inr c"
  shows "\<exists>pre post.
           commands (fst (probe_model w BASE finetuned_setting ft ds dt devices)) = [pre @ post]
         \<and> commands (fst (probe_model w setting finetuned_setting ft ds dt devices)) =
             [pre @ ''--resume --model_ckpt '' @ str_path c @ '' '' @ post]
         \<and> commands (fst (probe_model w BASE finetuned_setting ft ds dt devices)) \<noteq>
             commands (fst (probe_model w setting finetuned_setting ft ds dt devices))
         \<and> printed (fst (probe_model w setting finetuned_setting ft ds dt devices)) =
             [Experiment_name ft @ ''_'' @ lower (LingualSetting_name setting) @ '' -> '' @
              Experiment_name dt @ '', '' @ lower (LingualSetting_name ds)]"
proof -
  let ?pre = "''python train.py --local_rank -1 '' @ ''--dataset_name '' @
              Experiment_name dt @ ''/'' @ lower (LingualSetting_name ds) @ '' ''"
  let ?post = "''--epochs 2 --output_dir '' @
               str_path (model_checkpoint_dir finetuned_setting ft ds dt) @ '' '' @
               ''--init_checkpoint bert-base-multilingual-cased '' @ ''--devices '' @
               join '' '' (map str_int devices) @ '' '' @
               ''--model_probe --model_probe_n_classes '' @
               str_int (n_class w (lower (Experiment_name dt)))"
  have b: "commands (fst (probe_model w BASE finetuned_setting ft ds dt devices)) = [?pre @ ?post]"
    unfolding probe_model_launches [OF assms(1) model_template_base]
    by (simp add: commands_def)
  have s: "commands (fst (probe_model w setting finetuned_setting ft ds dt devices)) =
             [?pre @ ''--resume --model_ckpt '' @ str_path c @ '' '' @ ?post]"
    unfolding probe_model_launches [OF assms(1) model_template_resume [OF assms(2,3)]]
    by (simp add: commands_def)
  have d: "?pre @ ?post \<noteq> ?pre @ ''--resume --model_ckpt '' @ str_path c @ '' '' @ ?post"
  proof
    assume "?pre @ ?post = ?pre @ ''--resume --model_ckpt '' @ str_path c @ '' '' @ ?post"
    then have "[] @ ?post = (''--resume --model_ckpt '' @ str_path c @ '' '') @ ?post"
      by (simp only: same_append_eq append_Nil append_assoc)
    then have "[] = ''--resume --model_ckpt '' @ str_path c @ '' ''"
      by (simp only: append_same_eq)
    then show False by simp
  qed
  have p: "printed (fst (probe_model w setting finetuned_setting ft ds dt devices)) =
             [Experiment_name ft @ ''_'' @ lower (LingualSetting_name setting) @ '' -> '' @
              Experiment_name dt @ '', '' @ lower (LingualSetting_name ds)]"
    unfolding probe_model_launches [OF assms(1) model_template_resume [OF assms(2,3)]]
    by (simp add: task_info_str_def)
  have d': "commands (fst (probe_model w BASE finetuned_setting ft ds dt devices)) \<noteq>
             commands (fst (probe_model w setting finetuned_setting ft ds dt devices))"
    unfolding b s using d by (simp only: list.inject simp_thms)
  show ?thesis
    by (intro exI conjI) (rule b, rule s, rule d', rule p)
qed

theorem probe_model_reads_module_setting_witness:
  "\<not> is_dir finetuned_world (model_checkpoint_dir CROSS (Experiment ''NLI'') MULTI (Experiment ''NER''))
   \<and> MULTI \<noteq> BASE
   \<and> commands (fst (probe_model finetuned_world BASE CROSS (Experiment ''NLI'') MULTI
                       (Experiment ''NER'') [0, 1])) \<noteq>
       commands (fst (probe_model finetuned_world MULTI CROSS (Experiment ''NLI'') MULTI
                       (Experiment ''NER'') [0, 1]))
   \<and> printed (fst (probe_model finetuned_world MULTI CROSS (Experiment ''NLI'') MULTI
                      (Experiment ''NER'') [0, 1])) = [''NLI_multi -> NER, multi'']"
proof -
  have h1: "\<not> is_dir finetuned_world
               (model_checkpoint_dir CROSS (Experiment ''NLI'') MULTI (Experiment ''NER''))"
    by (simp add: eval_defs)
  have h2: "MULTI \<noteq> BASE" by simp
  have h3: "finetuned_checkpoint finetuned_world (Experiment ''NLI'') CROSS =
              Inr [''checkpoint'', ''NLI_cross'', ''model_5_1.pt'']"
    by (simp only: finetuned_checkpoint_cases finetuned_world_checkpoints list.case)
  from probe_model_reads_module_setting [OF h1 h2 h3, of "[0, 1]"]
  have "commands (fst (probe_model finetuned_world BASE CROSS (Experiment ''NLI'') MULTI
                       (Experiment ''NER'') [0, 1])) \<noteq>
       commands (fst (probe_model finetuned_world MULTI CROSS (Experiment ''NLI'') MULTI
                       (Experiment ''NER'') [0, 1]))"
    and "printed (fst (probe_model finetuned_world MULTI CROSS (Experiment ''NLI'') MULTI
                      (Experiment ''NER'') [0, 1])) =
         [Experiment_name (Experiment ''NLI'') @ ''_'' @ lower (LingualSetting_name MULTI) @
          '' -> '' @ Experiment_name (Experiment ''NER'') @ '', '' @
          lower (LingualSetting_name MULTI)]"
    by blast+
  moreover have "Experiment_name (Experiment ''NLI'') @ ''_'' @ lower (LingualSetting_name MULTI) @
          '' -> '' @ Experiment_name (Experiment ''NER'') @ '', '' @
          lower (LingualSetting_name MULTI) = ''NLI_multi -> NER, multi''"
    by (simp add: lower_def lower_char_def)
  ultimately show ?thesis using h1 h2 by simp
qed

section \<open>What the dispatcher does with the pending heads\<close>

subsection \<open>The schedule and the jobs\<close>

lemma commands_append: "commands (xs @ ys) = commands xs @ commands ys"
  by (simp add: commands_def launched_append)

lemma commands_prints [simp]: "commands (map Print xs) = []"
  by (simp add: commands_def)

lemma print_heads_exact:
  assumes "i + length hs \<le> length ids"
  shows "print_heads s ids i hs =
     (map (\<lambda>job. Print (lower (LingualSetting_name s) @ '' '' @ str_tuple (snd job) @ '' '' @
                          ''GPU: '' @ str_int (ids ! fst job))) (enumerate i hs), Inr ())"
  using assms
proof (induction hs arbitrary: i)
  case Nil
  show ?case by simp
next
  case (Cons hp rest)
  then have "i < length ids" by simp
  then have d: "item ids i = Inr (ids ! i)" by (simp add: item_def)
  have "Suc i + length rest \<le> length ids" using Cons.prems by simp
  from Cons.IH [OF this] d show ?case by simp
qed

lemma launch_all_commands:
  "\<exists>k \<le> length hs.
     map Inr (commands (fst (launch_all w s ft t mpg devs n cd ids i hs P))) =
       map (\<lambda>job. head_template w s ft t n (dir_for_head cd s (fst (snd job)) (snd (snd job)))
                    (ids ! fst job) (fst (snd job)) (snd (snd job)))
         (take k (enumerate i hs))
     \<and> (\<forall>Pf. snd (launch_all w s ft t mpg devs n cd ids i hs P) = Inr Pf \<longrightarrow> k = length hs)"
proof (induction hs arbitrary: i P)
  case Nil
  show ?case by (simp add: commands_def)
next
  case (Cons hp rest)
  obtain hl hi where hp: "hp = (hl, hi)" by (cases hp) auto
  let ?tm = "\<lambda>job. head_template w s ft t n (dir_for_head cd s (fst (snd job)) (snd (snd job)))
                    (ids ! fst job) (fst (snd job)) (snd (snd job))"
  show ?case
  proof (cases "item ids i")
    case (Inl e)
    then show ?thesis
      by (intro exI [of _ 0]) (simp add: hp commands_def)
  next
    case (Inr did)
    then have did: "ids ! i = did" by (simp add: item_Inr_iff)
    show ?thesis
    proof (cases "head_template w s ft t n (dir_for_head cd s hl hi) did hl hi")
      case (Inl e)
      then show ?thesis
        using Inr by (intro exI [of _ 0])
          (simp add: hp launch_all_template_fails commands_def del: launch_all.simps)
    next
      case c: (Inr c)
      let ?p = "\<lparr>args = c, pid = i, stdout_devnull = True, stderr_pipe = True\<rparr>"
      let ?P = "P @ [(hl, hi, did, ?p)]"
      have first: "?tm (i, hl, hi) = Inr c" using c did by simp
      show ?thesis
      proof (cases "int (length ?P) = int (length devs) * mpg")
        case True
        obtain xs where xs: "fst (wait_batch w s ?P) = Communicate_all (map handle ?P) # map Print xs"
          using wait_batch_shape by blast
        show ?thesis
        proof (cases "wait_batch w s ?P")
          case (Pair evs res)
          with xs have evs: "evs = Communicate_all (map handle ?P) # map Print xs" by simp
          show ?thesis
          proof (cases res)
            case (Inl e)
            have r: "launch_all w s ft t mpg devs n cd ids i (hp # rest) P =
                  ([Mkdir (dir_for_head cd s hl hi),
                    Print (''['' @ LingualSetting_name s @ ''] [GPU '' @ str_int did @ ''] '' @
                           Experiment_name ft @ ''->'' @ Experiment_name t @ '' '' @
                           str_tuple (hl, hi)),
                    Popen ?p] @ evs, Inl e)"
              unfolding hp launch_all_step [OF \<open>item ids i = Inr did\<close> c] using True Pair Inl
              by (simp del: launch_all.simps)
            show ?thesis
              unfolding r using first
              by (intro exI [of _ 1]) (simp add: evs hp commands_def launched_append)
          next
            case (Inr u)
            let ?r = "launch_all w s ft t mpg devs n cd ids (Suc i) rest []"
            have r: "launch_all w s ft t mpg devs n cd ids i (hp # rest) P =
                  prepend ([Mkdir (dir_for_head cd s hl hi),
                    Print (''['' @ LingualSetting_name s @ ''] [GPU '' @ str_int did @ ''] '' @
                           Experiment_name ft @ ''->'' @ Experiment_name t @ '' '' @
                           str_tuple (hl, hi)),
                    Popen ?p] @ evs) ?r"
              unfolding hp launch_all_step [OF \<open>item ids i = Inr did\<close> c] using True Pair Inr
              by (simp add: prepend_def del: launch_all.simps)
            obtain k where k: "k \<le> length rest"
                "map Inr (commands (fst ?r)) = map ?tm (take k (enumerate (Suc i) rest))"
                "\<forall>Pf. snd ?r = Inr Pf \<longrightarrow> k = length rest"
              using Cons.IH [of "Suc i" "[]"] by blast
            show ?thesis
              unfolding r using k first
              by (intro exI [of _ "Suc k"])
                 (simp add: evs hp commands_def launched_append del: launch_all.simps)
          qed
        qed
      next
        case False
        let ?r = "launch_all w s ft t mpg devs n cd ids (Suc i) rest ?P"
        have r: "launch_all w s ft t mpg devs n cd ids i (hp # rest) P =
              prepend [Mkdir (dir_for_head cd s hl hi),
                Print (''['' @ LingualSetting_name s @ ''] [GPU '' @ str_int did @ ''] '' @
                       Experiment_name ft @ ''->'' @ Experiment_name t @ '' '' @
                       str_tuple (hl, hi)),
                Popen ?p] ?r"
          unfolding hp launch_all_step [OF Inr c] using False
          by (simp del: launch_all.simps)
        obtain k where k: "k \<le> length rest"
            "map Inr (commands (fst ?r)) = map ?tm (take k (enumerate (Suc i) rest))"
            "\<forall>Pf. snd ?r = Inr Pf \<longrightarrow> k = length rest"
          using Cons.IH [of "Suc i" ?P] by blast
        show ?thesis
          unfolding r using k first
          by (intro exI [of _ "Suc k"])
             (simp add: hp commands_def del: launch_all.simps)
      qed
    qed
  qed
qed

lemma enumerate_member_index:
  assumes "job \<in> set (enumerate 0 hs)"
  shows "fst job < length hs"
proof -
  obtain j hp where job: "job = (j, hp)" by (cases job) auto
  from assms show ?thesis unfolding job by (simp add: in_set_enumerate_eq)
qed

lemma enumerate_index_less:
  "job \<in> set (take k (enumerate 0 hs)) \<Longrightarrow> fst job < length hs"
  by (rule enumerate_member_index) (rule in_set_takeD)

lemma launched_print_lines [simp]: "launched (map (\<lambda>x. Print (f x)) xs) = []"
  by (induction xs) simp_all

lemma probe_heads_schedule:
  assumes ne: "heads_to_probe w (head_checkpoint_dir ft t) s \<noteq> []" and devs: "devs \<noteq> []"
  shows "(\<exists>T. fst (probe_heads w s ft t mpg devs) =
              Print ''heads to probe:'' #
              map (\<lambda>job. Print (schedule_line s devs job))
                (enumerate 0 (heads_to_probe w (head_checkpoint_dir ft t) s)) @
              Print [CHR 0x0A] # T)
       \<and> (\<exists>k \<le> length (heads_to_probe w (head_checkpoint_dir ft t) s).
             map Inr (commands (fst (probe_heads w s ft t mpg devs))) =
               map (head_job w s ft t devs)
                 (take k (enumerate 0 (heads_to_probe w (head_checkpoint_dir ft t) s)))
             \<and> (snd (probe_heads w s ft t mpg devs) = Inr () \<longrightarrow>
                  k = length (heads_to_probe w (head_checkpoint_dir ft t) s)))"
proof -
  let ?heads = "heads_to_probe w (head_checkpoint_dir ft t) s"
  let ?n = "n_class w (lower (Experiment_name t))"
  let ?cd = "head_checkpoint_dir ft t"
  let ?ids = "map (\<lambda>j. devs ! (j mod length devs)) [0 ..< length ?heads]"
  let ?r = "launch_all w s ft t mpg devs ?n ?cd ?ids 0 ?heads []"
  let ?tm = "\<lambda>job. head_template w s ft t ?n (dir_for_head ?cd s (fst (snd job)) (snd (snd job)))
                    (?ids ! fst job) (fst (snd job)) (snd (snd job))"
  have ph: "print_heads s ?ids 0 ?heads =
     (map (\<lambda>job. Print (lower (LingualSetting_name s) @ '' '' @ str_tuple (snd job) @ '' '' @
                          ''GPU: '' @ str_int (?ids ! fst job))) (enumerate 0 ?heads), Inr ())"
    by (rule print_heads_exact) simp
  have lines: "map (\<lambda>job. Print (lower (LingualSetting_name s) @ '' '' @ str_tuple (snd job) @
                             '' '' @ ''GPU: '' @ str_int (?ids ! fst job))) (enumerate 0 ?heads) =
               map (\<lambda>job. Print (schedule_line s devs job)) (enumerate 0 ?heads)"
  proof (rule map_cong [OF refl])
    fix job assume "job \<in> set (enumerate 0 ?heads)"
    then have "fst job < length ?heads" by (rule enumerate_member_index)
    then show "Print (lower (LingualSetting_name s) @ '' '' @ str_tuple (snd job) @ '' '' @
                      ''GPU: '' @ str_int (?ids ! fst job)) = Print (schedule_line s devs job)"
      by (cases job) (simp add: schedule_line_def)
  qed
  note u = probe_heads_unfold [OF refl ne devs refl, of mpg, unfolded ph fst_conv lines]
  obtain k where k: "k \<le> length ?heads"
      "map Inr (commands (fst ?r)) = map ?tm (take k (enumerate 0 ?heads))"
      "\<forall>Pf. snd ?r = Inr Pf \<longrightarrow> k = length ?heads"
    using launch_all_commands [of ?heads w s ft t mpg devs ?n ?cd ?ids 0 "[]"] by blast
  have jobs: "map ?tm (take k (enumerate 0 ?heads)) =
              map (head_job w s ft t devs) (take k (enumerate 0 ?heads))"
  proof (rule map_cong [OF refl])
    fix job assume "job \<in> set (take k (enumerate 0 ?heads))"
    then have "fst job < length ?heads" by (rule enumerate_index_less)
    then show "?tm job = head_job w s ft t devs job"
      by (cases job) (auto simp: head_job_def)
  qed
  obtain T res where r: "?r = (T, res)" by (cases ?r) auto
  show ?thesis
  proof (cases res)
    case (Inl e)
    have p: "probe_heads w s ft t mpg devs =
          (Print ''heads to probe:'' #
           map (\<lambda>job. Print (schedule_line s devs job)) (enumerate 0 ?heads) @
           Print [CHR 0x0A] # T, Inl e)"
      unfolding u r Inl by simp
    have c: "commands (fst (probe_heads w s ft t mpg devs)) = commands T"
      unfolding p by (simp add: commands_def launched_append)
    show ?thesis
      unfolding c using k(1,2) r jobs unfolding p by auto
  next
    case (Inr Pf)
    have p: "probe_heads w s ft t mpg devs =
          (Print ''heads to probe:'' #
           map (\<lambda>job. Print (schedule_line s devs job)) (enumerate 0 ?heads) @
           Print [CHR 0x0A] # T @ [Communicate_all (map handle Pf)], Inr ())"
      unfolding u r Inr by simp
    have c: "commands (fst (probe_heads w s ft t mpg devs)) = commands T"
      unfolding p by (simp add: commands_def launched_append)
    have "k = length ?heads" using k(3) r Inr by simp
    then show ?thesis
      unfolding c using k(1,2) r jobs unfolding p by auto
  qed
qed

lemma five_mod_two: "(5 :: nat) mod Suc (Suc 0) = Suc 0"
  by code_simp

lemma grid_nth_5: "List.product [0..<12] [0..<12 :: nat] ! 5 = (0, 5)"
  by code_simp

text \<open>
  Claim C1. A pair \<open>(hl, hi)\<close> is among the pending heads of \<^verbatim>\<open>probe_heads\<close> if and only if it
  lies in the 12 by 12 grid and the scan for \<^verbatim>\<open>model_1_*.pt\<close> below its checkpoint directory
  finds nothing, and no pair is pending twice. These pending heads are what \<^verbatim>\<open>probe_heads\<close>
  works on:
  \<^item> when the scan finds a marker for every pair of the grid, \<^verbatim>\<open>probe_heads\<close> returns with an
    empty trace: nothing is printed and no subprocess is started;
  \<^item> when there is a pending head and a device, the trace begins with the announcement of
    exactly the pending heads, one line for each, in the order of the grid;
  \<^item> the command lines of the subprocesses that are started are, in order, those of the
    jobs of the first \<open>k\<close> pending heads, for some \<open>k\<close>: no process is started for a pair that
    has its marker, and none twice;
  \<^item> in a run that ends without an error they are those of all pending heads.
\<close>

theorem pending_iff_no_marker:
  "((hl, hi) \<in> set (heads_to_probe w (head_checkpoint_dir ft t) s) \<longleftrightarrow>
      hl < 12 \<and> hi < 12 \<and>
      rglob w (dir_for_head (head_checkpoint_dir ft t) s hl hi) ''model_1_*.pt'' = [])
   \<and> distinct (heads_to_probe w (head_checkpoint_dir ft t) s)
   \<and> ((\<forall>hl<12. \<forall>hi<12.
          rglob w (dir_for_head (head_checkpoint_dir ft t) s hl hi) ''model_1_*.pt'' \<noteq> []) \<longrightarrow>
        probe_heads w s ft t models_per_gpu devices = ([], Inr ()))
   \<and> (heads_to_probe w (head_checkpoint_dir ft t) s \<noteq> [] \<and> devices \<noteq> [] \<longrightarrow>
        (\<exists>T. fst (probe_heads w s ft t models_per_gpu devices) =
               Print ''heads to probe:'' #
               map (\<lambda>job. Print (schedule_line s devices job))
                 (enumerate 0 (heads_to_probe w (head_checkpoint_dir ft t) s)) @
               Print [CHR 0x0A] # T))
   \<and> (\<exists>k \<le> length (heads_to_probe w (head_checkpoint_dir ft t) s).
         map Inr (commands (fst (probe_heads w s ft t models_per_gpu devices))) =
           map (head_job w s ft t devices)
             (take k (enumerate 0 (heads_to_probe w (head_checkpoint_dir ft t) s))))
   \<and> (snd (probe_heads w s ft t models_per_gpu devices) = Inr () \<longrightarrow>
        map Inr (commands (fst (probe_heads w s ft t models_per_gpu devices))) =
          map (head_job w s ft t devices)
            (enumerate 0 (heads_to_probe w (head_checkpoint_dir ft t) s)))"
proof -
  let ?heads = "heads_to_probe w (head_checkpoint_dir ft t) s"
  let ?r = "probe_heads w s ft t models_per_gpu devices"
  have a3: "(\<forall>hl<12. \<forall>hi<12.
          rglob w (dir_for_head (head_checkpoint_dir ft t) s hl hi) ''model_1_*.pt'' \<noteq> []) \<longrightarrow>
        ?r = ([], Inr ())"
    by (simp add: probe_heads_no_heads heads_to_probe_Nil_iff [symmetric])
  have a4: "\<exists>T. fst ?r = Print ''heads to probe:'' #
               map (\<lambda>job. Print (schedule_line s devices job)) (enumerate 0 ?heads) @
               Print [CHR 0x0A] # T"
    if "?heads \<noteq> [] \<and> devices \<noteq> []"
    using probe_heads_schedule [of w ft t s devices models_per_gpu] that by blast
  have a5: "\<exists>k \<le> length ?heads.
         map Inr (commands (fst ?r)) = map (head_job w s ft t devices) (take k (enumerate 0 ?heads))
         \<and> (snd ?r = Inr () \<longrightarrow> k = length ?heads)"
  proof (cases "?heads = []")
    case True
    then show ?thesis by (simp add: probe_heads_no_heads commands_def)
  next
    case ne: False
    show ?thesis
    proof (cases "devices = []")
      case True
      with ne show ?thesis
        by (intro exI [of _ 0]) (simp add: probe_heads_no_devices commands_def)
    next
      case False
      from probe_heads_schedule [OF ne False, of models_per_gpu] show ?thesis by blast
    qed
  qed
  then obtain k where k: "k \<le> length ?heads"
      "map Inr (commands (fst ?r)) = map (head_job w s ft t devices) (take k (enumerate 0 ?heads))"
      "snd ?r = Inr () \<longrightarrow> k = length ?heads"
    by blast
  have a6: "snd ?r = Inr () \<longrightarrow>
        map Inr (commands (fst ?r)) = map (head_job w s ft t devices) (enumerate 0 ?heads)"
    using k by auto
  from k(1,2) have a5': "\<exists>k \<le> length ?heads.
         map Inr (commands (fst ?r)) = map (head_job w s ft t devices) (take k (enumerate 0 ?heads))"
    by blast
  show ?thesis
    using heads_to_probe_iff [of hl hi w "head_checkpoint_dir ft t" s]
      distinct_heads_to_probe [of w "head_checkpoint_dir ft t" s] a3 a4 a5' a6
    by blast
qed

theorem pending_iff_no_marker_witness:
  "(3, 4) \<notin> set (heads_to_probe probed_world
                    (head_checkpoint_dir (Experiment ''NLI'') (Experiment ''POS'')) CROSS)
   \<and> (0, 0) \<in> set (heads_to_probe (fresh_world 0)
                    (head_checkpoint_dir (Experiment ''NLI'') (Experiment ''POS'')) CROSS)
   \<and> probe_heads probed_world CROSS (Experiment ''NLI'') (Experiment ''POS'') 2 [0, 1] = ([], Inr ())
   \<and> str_path (dir_for_head (head_checkpoint_dir (Experiment ''NLI'') (Experiment ''POS''))
                 CROSS 3 4) = ''checkpoint/head_probing/NLI/POS/cross/3/4''
   \<and> length (commands (fst (probe_heads (fresh_world 0) BASE (Experiment ''NLI'')
                               (Experiment ''POS'') 2 [0, 1]))) = 144
   \<and> commands (fst (probe_heads (fresh_world 0) BASE (Experiment ''NLI'')
                       (Experiment ''POS'') 2 [0, 1])) ! 5 =
       ''python train.py --local_rank -1 --dataset_name POS/cross --epochs 2 --output_dir checkpoint/head_probing/NLI/POS/base/0/5 --init_checkpoint bert-base-multilingual-cased --devices 1 --head_probe --head_probe_layer 0 --head_probe_idx 5 --head_probe_n_classes 17''"
proof -
  let ?NLI = "Experiment ''NLI''" and ?POS = "Experiment ''POS''"
  let ?r = "probe_heads (fresh_world 0) BASE ?NLI ?POS 2 [0, 1]"
  let ?heads = "heads_to_probe (fresh_world 0) (head_checkpoint_dir ?NLI ?POS) BASE"
  have a: "\<forall>hl<12. \<forall>hi<12. rglob probed_world
             (dir_for_head (head_checkpoint_dir ?NLI ?POS) CROSS hl hi) ''model_1_*.pt'' \<noteq> []"
    using probed_world_markers by blast
  have b: "rglob (fresh_world 0) d pat = []" for d pat
    by (simp add: rglob_def fresh_world_def)
  have c: "str_path (dir_for_head (head_checkpoint_dir ?NLI ?POS) CROSS 3 4) =
             ''checkpoint/head_probing/NLI/POS/cross/3/4''"
    by (simp add: dir_for_head_def head_checkpoint_dir_def str_path_def joinpath_def Path_def
          lower_def lower_char_def str_nat_digit digit_def)
  have ok: "snd ?r = Inr ()"
    by (rule probe_heads_ok) simp_all
  from pending_iff_no_marker [of 0 0 "fresh_world 0" ?NLI ?POS BASE 2 "[0, 1]"] ok
  have m: "map Inr (commands (fst ?r)) =
             map (head_job (fresh_world 0) BASE ?NLI ?POS [0, 1]) (enumerate 0 ?heads)"
    by blast
  from arg_cong [OF m, of length] have len: "length (commands (fst ?r)) = 144"
    by (simp add: fresh_heads)
  have "map Inr (commands (fst ?r)) ! 5 =
          map (head_job (fresh_world 0) BASE ?NLI ?POS [0, 1]) (enumerate 0 ?heads) ! 5"
    using m by simp
  then have "Inr (commands (fst ?r) ! 5) =
               head_job (fresh_world 0) BASE ?NLI ?POS [0, 1] (5, ?heads ! 5)"
    using len by (simp add: fresh_heads nth_enumerate_eq)
  also have "?heads ! 5 = (0, 5)"
    by (simp only: heads_fresh [OF fresh_entries] grid_nth_5)
  also have "head_job (fresh_world 0) BASE ?NLI ?POS [0, 1] (5, (0, 5)) =
      Inr ''python train.py --local_rank -1 --dataset_name POS/cross --epochs 2 --output_dir checkpoint/head_probing/NLI/POS/base/0/5 --init_checkpoint bert-base-multilingual-cased --devices 1 --head_probe --head_probe_layer 0 --head_probe_idx 5 --head_probe_n_classes 17''"
    by (simp add: head_job_def head_template_eq fresh_n_class dir_for_head_def
          head_checkpoint_dir_def str_path_def joinpath_def Path_def lower_def lower_char_def
          str_nat_digit digit_def str_int_def str_nat.simps [of 17] five_mod_two)
  finally have cmd: "commands (fst ?r) ! 5 =
      ''python train.py --local_rank -1 --dataset_name POS/cross --epochs 2 --output_dir checkpoint/head_probing/NLI/POS/base/0/5 --init_checkpoint bert-base-multilingual-cased --devices 1 --head_probe --head_probe_layer 0 --head_probe_idx 5 --head_probe_n_classes 17''"
    by simp
  show ?thesis
    using a b c len cmd
      pending_iff_no_marker [of 3 4 probed_world ?NLI ?POS CROSS 2 "[0, 1]"]
      pending_iff_no_marker [of 0 0 "fresh_world 0" ?NLI ?POS CROSS 2 "[0, 1]"]
    by simp
qed

subsection \<open>Exit statuses other than 0 and 1\<close>

lemma acknowledged_prints [simp]: "acknowledged f (map Print xs @ ys) = acknowledged f ys"
  by (induction xs) simp_all

lemma acknowledged_print_lines [simp]:
  "acknowledged f (map (\<lambda>x. Print (g x)) xs @ ys) = acknowledged f ys"
  by (induction xs) simp_all




lemma completed_line_handle:
  "completed_line s (hl, hi, did, p) = completed_line s (hl, hi, did, q)"
  by (simp add: completed_line_def)








end
